theory Spec2Isabelle
  imports Complex_Main "HOL-Library.Sublist"
begin

section \<open>asciipixels: values, errors and the parameter resolver\<close>

text \<open>
  The values that travel through \<^verbatim>\<open>PossiblyDynamic\<close> (core.py): \<^verbatim>\<open>None\<close>, integers,
  floats, strings, tuples and the list that \<^verbatim>\<open>__init__\<close> builds for a callable.
  A float value is written as in the program text: \<open>PFloat r\<close> is the binary64 number
  nearest to the rational \<open>r\<close> (so \<open>PFloat (1 / 10)\<close> is the float \<^verbatim>\<open>0.1\<close>). The rounding
  is applied where the value enters arithmetic.
\<close>

datatype pyval =
    PNone
  | PInt int
  | PFloat rat
  | PStr string
  | PTuple "pyval list"
  | PList "pyval list"

text \<open>The exceptions of typealiases.py and the built-in ones the modelled code can raise.\<close>

datatype error =
    AsciifierException string
  | MagickException string
  | FFmpegException string
  | FileNotFoundError
  | TypeError
  | IndexError
  | ValueError
  | ZeroDivisionError
  | OverflowError
  | AttributeError
  | FileExistsError
  | NotADirectoryError
  | SystemExit

text \<open>\<^verbatim>\<open>func_or_value\<close>: either a callable of the frame number or a hard-coded value.\<close>

datatype func_or_value = Func "int \<Rightarrow> pyval" | Value pyval

text \<open>
  The fields of the resolver; \<^verbatim>\<open>self.value\<close> is \<open>value_pd\<close> here. \<open>is_dynamic\<close> is
  \<^verbatim>\<open>callable(func_or_value)\<close>.
\<close>

record PossiblyDynamic =
  is_dynamic :: bool
  value_pd :: pyval
  color_type :: bool
  reverse :: bool

text \<open>Python sequence indexing \<^verbatim>\<open>xs[i]\<close>: a negative index counts from the end.\<close>

definition seq_get :: "'a list \<Rightarrow> int \<Rightarrow> error + 'a" where
  "seq_get xs i =
     (if 0 \<le> i \<and> i < int (length xs) then Inr (xs ! nat i)
      else if i < 0 \<and> - int (length xs) \<le> i then Inr (xs ! nat (int (length xs) + i))
      else Inl IndexError)"

text \<open>\<^verbatim>\<open>v[i]\<close> on a value: only sequences can be subscripted.\<close>

fun py_subscript :: "pyval \<Rightarrow> int \<Rightarrow> error + pyval" where
  "py_subscript (PList xs) i = seq_get xs i"
| "py_subscript (PTuple xs) i = seq_get xs i"
| "py_subscript (PStr s) i = (case seq_get s i of Inl e \<Rightarrow> Inl e | Inr c \<Rightarrow> Inr (PStr [c]))"
| "py_subscript v i = Inl TypeError"

text \<open>\<^verbatim>\<open>v[::-1]\<close>.\<close>

fun py_reversed :: "pyval \<Rightarrow> error + pyval" where
  "py_reversed (PStr s) = Inr (PStr (rev s))"
| "py_reversed (PTuple xs) = Inr (PTuple (rev xs))"
| "py_reversed (PList xs) = Inr (PList (rev xs))"
| "py_reversed v = Inl TypeError"

text \<open>\<^verbatim>\<open>isinstance(v, int)\<close>.\<close>

fun isinstance_int :: "pyval \<Rightarrow> bool" where
  "isinstance_int (PInt i) = True"
| "isinstance_int v = False"

text \<open>
  \<^verbatim>\<open>PossiblyDynamic.__init__\<close> (core.py:25-40). A callable is evaluated for every frame
  \<^verbatim>\<open>range(1, frame_count + 1)\<close> and the list is stored; without a frame count it raises.
\<close>

definition PossiblyDynamic_init ::
  "func_or_value \<Rightarrow> int option \<Rightarrow> bool \<Rightarrow> bool \<Rightarrow> error + PossiblyDynamic" where
  "PossiblyDynamic_init fv frame_count ct rv =
     (case fv of
        Func g \<Rightarrow>
          (case frame_count of
             None \<Rightarrow> Inl (AsciifierException
                 ''No frame count was given in order to pre-calculate dynamic parameters.'')
           | Some n \<Rightarrow> Inr \<lparr>is_dynamic = True, value_pd = PList (map g [1..n]),
                            color_type = ct, reverse = rv\<rparr>)
      | Value v \<Rightarrow> Inr \<lparr>is_dynamic = False, value_pd = v, color_type = ct, reverse = rv\<rparr>)"

text \<open>
  The tail of \<^verbatim>\<open>__getitem__\<close> (core.py:51-55): color broadcast first, then reversal.
\<close>

definition output_transforms :: "bool \<Rightarrow> bool \<Rightarrow> pyval \<Rightarrow> error + pyval" where
  "output_transforms ct rv resp =
     (if ct \<and> isinstance_int resp then Inr (PTuple [resp, resp, resp])
      else if rv then py_reversed resp
      else Inr resp)"

text \<open>
  \<^verbatim>\<open>PossiblyDynamic.__getitem__\<close> (core.py:42-55). With \<^verbatim>\<open>frame = None\<close> the expression
  \<^verbatim>\<open>frame - 1\<close> raises TypeError, as does subscripting a value that is no sequence; the
  \<^verbatim>\<open>except TypeError\<close> clause turns both into AsciifierException. IndexError is not caught.
\<close>

definition no_frame_error :: error where
  "no_frame_error = AsciifierException ''Frame was not specified for dynamic parameter.''"

definition getitem :: "PossiblyDynamic \<Rightarrow> int option \<Rightarrow> error + pyval" where
  "getitem self frame =
     (case (if is_dynamic self then
              (case frame of
                 None \<Rightarrow> Inl no_frame_error
               | Some f \<Rightarrow>
                   (case py_subscript (value_pd self) (f - 1) of
                      Inl TypeError \<Rightarrow> Inl no_frame_error
                    | Inl e \<Rightarrow> Inl e
                    | Inr resp \<Rightarrow> Inr resp))
            else Inr (value_pd self)) of
        Inl e \<Rightarrow> Inl e
      | Inr resp \<Rightarrow> output_transforms (color_type self) (reverse self) resp)"

section \<open>Numbers, paths and the world outside the process\<close>

text \<open>
  Python floats are IEEE 754 binary64 numbers. A finite one is carried as the rational it
  equals; \<open>Infinite False\<close> and \<open>Infinite True\<close> are the positive and the negative
  infinity. The sign of a zero is not kept: it shows only in a division by zero, which
  Python refuses, and in functions the modelled code does not call.
\<close>

datatype float64 = Finite rat | Infinite bool | NaN

text \<open>The number of binary digits of a positive integer (\<^verbatim>\<open>int.bit_length\<close>).\<close>

function bit_length :: "int \<Rightarrow> nat" where
  "bit_length n = (if n \<le> 0 then 0 else Suc (bit_length (n div 2)))"
  by pat_completeness auto

termination bit_length
  by (relation "measure nat") auto

declare bit_length.simps [simp del]

text \<open>Powers of two with an integer exponent.\<close>

definition two_pow :: "int \<Rightarrow> rat" where
  "two_pow k = (if 0 \<le> k then of_int (2 ^ nat k) else 1 / of_int (2 ^ nat (- k)))"

text \<open>
  The binary exponent of a positive rational \<open>x\<close>, that is the \<open>e\<close> with
  \<open>2^e \<le> x < 2^(e+1)\<close>: the difference of the bit lengths of numerator and denominator,
  or one less.
\<close>

definition ilog2 :: "rat \<Rightarrow> int" where
  "ilog2 x =
     (let (p, q) = quotient_of x;
          g = int (bit_length p) - int (bit_length q)
      in if two_pow g \<le> x then g else g - 1)"

text \<open>The nearest integer, a tie going to the even one.\<close>

definition round_half_even :: "rat \<Rightarrow> int" where
  "round_half_even x =
     (let f = \<lfloor>x\<rfloor>; r = x - of_int f
      in if r < 1 / 2 then f else if 1 / 2 < r then f + 1 else if even f then f else f + 1)"

text \<open>
  The binary64 number that an exact result \<open>x\<close> is rounded to (round to nearest, ties
  to even). A number with binary exponent \<open>e \<ge> -1022\<close> keeps 53 significant bits, so it
  is a multiple of \<open>2^(e-52)\<close>; below that the numbers are the multiples of \<open>2^-1074\<close>.
  A rounded magnitude that reaches \<open>2^1024\<close> is an infinity.
\<close>

definition round64 :: "rat \<Rightarrow> float64" where
  "round64 x =
     (if x = 0 then Finite 0
      else
        (let a = \<bar>x\<bar>;
             e = max (ilog2 a) (- 1022);
             u = two_pow (e - 52);
             n = round_half_even (a / u)
         in if 1023 < e \<or> (e = 1023 \<and> n = 2 ^ 53) then Infinite (x < 0)
            else Finite (if x < 0 then - (of_int n * u) else of_int n * u)))"

text \<open>
  \<^verbatim>\<open>float(i)\<close>, also the conversion of an \<^verbatim>\<open>int\<close> operand next to a float one: correctly
  rounded, and OverflowError when the integer is too large.
\<close>

definition float_of_int :: "int \<Rightarrow> error + float64" where
  "float_of_int i = (case round64 (of_int i) of Infinite s \<Rightarrow> Inl OverflowError | x \<Rightarrow> Inr x)"

text \<open>
  The float operand a value gives in arithmetic with a float: an \<^verbatim>\<open>int\<close> is converted, a
  \<^verbatim>\<open>float\<close> is taken as it is, anything else is a TypeError.
\<close>

fun as_float :: "pyval \<Rightarrow> error + float64" where
  "as_float (PInt i) = float_of_int i"
| "as_float (PFloat r) = Inr (round64 r)"
| "as_float v = Inl TypeError"

text \<open>\<^verbatim>\<open>x * y\<close> on floats: an overflow gives an infinity, never an exception.\<close>

fun fmul :: "float64 \<Rightarrow> float64 \<Rightarrow> float64" where
  "fmul (Finite a) (Finite b) = round64 (a * b)"
| "fmul (Finite a) (Infinite s) = (if a = 0 then NaN else Infinite (s \<noteq> (a < 0)))"
| "fmul (Infinite s) (Finite b) = (if b = 0 then NaN else Infinite (s \<noteq> (b < 0)))"
| "fmul (Infinite s) (Infinite t) = Infinite (s \<noteq> t)"
| "fmul NaN y = NaN"
| "fmul x NaN = NaN"

text \<open>\<^verbatim>\<open>x / y\<close> on floats: a zero divisor raises ZeroDivisionError whatever the dividend.\<close>

fun fdiv :: "float64 \<Rightarrow> float64 \<Rightarrow> error + float64" where
  "fdiv x (Finite b) =
     (if b = 0 then Inl ZeroDivisionError
      else (case x of
              Finite a \<Rightarrow> Inr (round64 (a / b))
            | Infinite s \<Rightarrow> Inr (Infinite (s \<noteq> (b < 0)))
            | NaN \<Rightarrow> Inr NaN))"
| "fdiv (Finite a) (Infinite t) = Inr (Finite 0)"
| "fdiv (Infinite s) (Infinite t) = Inr NaN"
| "fdiv NaN (Infinite t) = Inr NaN"
| "fdiv x NaN = Inr NaN"

text \<open>
  \<^verbatim>\<open>a / b\<close> on two \<^verbatim>\<open>int\<close>s: the correctly rounded quotient, ZeroDivisionError for a zero
  divisor and OverflowError when the quotient is too large for a float.
\<close>

definition int_truediv :: "int \<Rightarrow> int \<Rightarrow> error + float64" where
  "int_truediv a b =
     (if b = 0 then Inl ZeroDivisionError
      else (case round64 (of_int a / of_int b) of
              Infinite s \<Rightarrow> Inl OverflowError
            | x \<Rightarrow> Inr x))"

text \<open>
  \<^verbatim>\<open>int(x)\<close> on a float truncates toward zero; \<^verbatim>\<open>math.ceil(x)\<close> rounds up. Both raise
  OverflowError for an infinity and ValueError for NaN.
\<close>

definition trunc :: "rat \<Rightarrow> int" where
  "trunc x = (if 0 \<le> x then \<lfloor>x\<rfloor> else \<lceil>x\<rceil>)"

fun py_int :: "float64 \<Rightarrow> error + int" where
  "py_int (Finite x) = Inr (trunc x)"
| "py_int (Infinite s) = Inl OverflowError"
| "py_int NaN = Inl ValueError"

fun py_ceil :: "float64 \<Rightarrow> error + int" where
  "py_ceil (Finite x) = Inr \<lceil>x\<rceil>"
| "py_ceil (Infinite s) = Inl OverflowError"
| "py_ceil NaN = Inl ValueError"

text \<open>\<^verbatim>\<open>int(n * x)\<close> for an \<^verbatim>\<open>int\<close> \<open>n\<close> and a float \<open>x\<close>.\<close>

definition int_of_product :: "int \<Rightarrow> float64 \<Rightarrow> error + int" where
  "int_of_product n x =
     (case float_of_int n of
        Inl e \<Rightarrow> Inl e
      | Inr a \<Rightarrow> py_int (fmul a x))"

text \<open>\<^verbatim>\<open>str(n)\<close> for the frame number inside a file name.\<close>

definition digit_char :: "nat \<Rightarrow> char" where
  "digit_char n = char_of (48 + n)"

fun str_nat :: "nat \<Rightarrow> string" where
  "str_nat n = (if n < 10 then [digit_char n] else str_nat (n div 10) @ [digit_char (n mod 10)])"

definition str_int :: "int \<Rightarrow> string" where
  "str_int i = (if i < 0 then CHR ''-'' # str_nat (nat (- i)) else str_nat (nat i))"

text \<open>
  A path is the list of its components; \<^verbatim>\<open>p.parent\<close> drops the last one and \<^verbatim>\<open>p / name\<close>
  appends one. \<^verbatim>\<open>Path.suffix\<close> is the part of the last component from its last dot, when
  that dot is neither its first nor its last character.
\<close>

type_synonym pathname = "string list"

definition parent :: "pathname \<Rightarrow> pathname" where
  "parent p = butlast p"

definition suffix_of :: "pathname \<Rightarrow> string" where
  "suffix_of p =
     (if p = [] then []
      else let name = last p;
               ext = rev (takeWhile (\<lambda>c. c \<noteq> CHR ''.'') (rev name));
               stem = rev (drop 1 (dropWhile (\<lambda>c. c \<noteq> CHR ''.'') (rev name)))
           in if CHR ''.'' \<in> set name \<and> stem \<noteq> [] \<and> ext \<noteq> [] then CHR ''.'' # ext else [])"

definition lower_char :: "char \<Rightarrow> char" where
  "lower_char c =
     (let n = (of_char c :: nat) in if 65 \<le> n \<and> n \<le> 90 then char_of (n + 32) else c)"

definition lower :: "string \<Rightarrow> string" where
  "lower s = map lower_char s"

text \<open>
  What is on disk: directories, images with their pixel dimensions, and \<open>Data\<close> for any
  other file, or an image whose size is not tracked.
  The process environment holds \<^verbatim>\<open>ASCIIPIXELS_PROCESS\<close>, read through \<^verbatim>\<open>int()\<close>
  (unset reads as 0).
\<close>

datatype fs_entry = Directory | Image int int | Data

record world =
  fs :: "pathname \<Rightarrow> fs_entry option"
  ASCIIPIXELS_PROCESS :: int

text \<open>
  The external collaborators, taken as parameters: what ImageMagick, FFmpeg and PIL answer.
  \<^verbatim>\<open>None\<close> or \<^verbatim>\<open>False\<close> stands for a non-zero exit status of the command.
  \<^item> \<open>identify_dimensions\<close>: the size \<^verbatim>\<open>Magick.dimensions\<close> parses;
  \<^item> \<open>convert_text_dimensions cols lines size w h\<close>: the trimmed size of the test block that
    \<^verbatim>\<open>Magick.text_dimensions\<close> parses;
  \<^item> \<open>convert_blank_ok\<close>, \<open>convert_overlay_ok\<close>: whether \<^verbatim>\<open>convert\<close> succeeded in
    \<^verbatim>\<open>Magick.blank_png\<close> and \<^verbatim>\<open>Magick.text_overlay\<close>;
  \<^item> \<open>ffprobe_frame_count\<close>, \<open>ffprobe_fps\<close>, \<open>ffprobe_dimensions\<close>: the probes of a video;
  \<^item> \<open>ffmpeg_frames_to_video_ok\<close>: whether \<^verbatim>\<open>ffmpeg\<close> assembled the frames;
  \<^item> \<open>ffmpeg_video_to_frames\<close>: how many numbered frames \<^verbatim>\<open>ffmpeg\<close> extracted;
  \<^item> \<open>ffmpeg_extract_audio_ok\<close>, \<open>ffmpeg_join_streams_ok\<close>: whether the audio was
    extracted and the streams were joined;
  \<^item> \<open>pil_getdata path w h\<close>: \<^verbatim>\<open>Image.open(path).resize((w, h)).convert('L').getdata()\<close>;
  \<^item> \<open>safe_path\<close>: \<^verbatim>\<open>utils.safe_path\<close>, which depends on what exists on disk;
  \<^item> \<open>as_completed n\<close>: the order in which the \<open>n\<close> tasks of a process pool finish, as
    positions in the list of submitted tasks (\<^verbatim>\<open>concurrent.futures.as_completed\<close>).
\<close>

record tools =
  identify_dimensions :: "pathname \<Rightarrow> (int \<times> int) option"
  convert_text_dimensions :: "int \<Rightarrow> int \<Rightarrow> int \<Rightarrow> int \<Rightarrow> int \<Rightarrow> (int \<times> int) option"
  convert_blank_ok :: "pathname \<Rightarrow> int \<Rightarrow> int \<Rightarrow> bool"
  convert_overlay_ok :: "pathname \<Rightarrow> pathname \<Rightarrow> string \<Rightarrow> int option \<Rightarrow> string \<Rightarrow> bool"
  ffprobe_frame_count :: "pathname \<Rightarrow> int option"
  ffprobe_fps :: "pathname \<Rightarrow> int option"
  ffprobe_dimensions :: "pathname \<Rightarrow> (int \<times> int) option"
  ffmpeg_frames_to_video_ok :: "pathname \<Rightarrow> pathname \<Rightarrow> bool"
  ffmpeg_video_to_frames :: "pathname \<Rightarrow> pathname \<Rightarrow> int option"
  ffmpeg_extract_audio_ok :: "pathname \<Rightarrow> pathname \<Rightarrow> bool"
  ffmpeg_join_streams_ok :: "pathname \<Rightarrow> pathname \<Rightarrow> int \<Rightarrow> int \<Rightarrow> pathname option \<Rightarrow> bool"
  pil_getdata :: "pathname \<Rightarrow> int \<Rightarrow> int \<Rightarrow> error + int list"
  safe_path :: "(pathname \<Rightarrow> fs_entry option) \<Rightarrow> pathname \<Rightarrow> string option \<Rightarrow> error + pathname"
  as_completed :: "nat \<Rightarrow> nat list"

text \<open>
  The wrappers of class \<^verbatim>\<open>Magick\<close> and \<^verbatim>\<open>FFmpeg\<close> (core.py:292-405) that the core calls:
  each runs its command and raises on a non-zero exit status. What a successful command
  leaves on disk is the contract of the external program: an image of the requested size,
  the canvas with the text drawn on it, the assembled video.
\<close>

definition Magick_dimensions :: "tools \<Rightarrow> pathname \<Rightarrow> error + int \<times> int" where
  "Magick_dimensions T p =
     (case identify_dimensions T p of
        None \<Rightarrow> Inl (MagickException ''File does not exist or format not supported.'')
      | Some d \<Rightarrow> Inr d)"

definition Magick_text_dimensions ::
  "tools \<Rightarrow> int \<Rightarrow> int \<Rightarrow> int \<Rightarrow> int \<Rightarrow> int \<Rightarrow> error + int \<times> int" where
  "Magick_text_dimensions T cols lines sz w h =
     (case convert_text_dimensions T cols lines sz w h of
        None \<Rightarrow> Inl (MagickException ''File does not exist or format not supported.'')
      | Some d \<Rightarrow> Inr d)"

text \<open>On success \<^verbatim>\<open>convert -size WxH xc:...\<close> leaves an image of that size at the path.\<close>

definition Magick_blank_png ::
  "tools \<Rightarrow> pathname \<Rightarrow> int \<Rightarrow> int \<Rightarrow> world \<Rightarrow> (error + unit) \<times> world" where
  "Magick_blank_png T p width height w =
     (if convert_blank_ok T p width height
      then (Inr (), w\<lparr>fs := (fs w)(p \<mapsto> Image width height)\<rparr>)
      else (Inl (MagickException ''File format not supported.''), w))"

text \<open>
  \<^verbatim>\<open>convert canvas ... -annotate +0+0 text out\<close> draws on the canvas image and saves the
  result, which has the size of the canvas. It fails when the canvas is not there.
\<close>

definition Magick_text_overlay ::
  "tools \<Rightarrow> pathname \<Rightarrow> pathname \<Rightarrow> string \<Rightarrow> int option \<Rightarrow> string \<Rightarrow> world \<Rightarrow>
   (error + unit) \<times> world" where
  "Magick_text_overlay T p out_path text sz gravity w =
     (case fs w p of
        Some (Image width height) \<Rightarrow>
          (if convert_overlay_ok T p out_path text sz gravity
           then (Inr (), w\<lparr>fs := (fs w)(out_path \<mapsto> Image width height)\<rparr>)
           else (Inl (MagickException ''File does not exist or format not supported.''), w))
      | _ \<Rightarrow> (Inl (MagickException ''File does not exist or format not supported.''), w))"

definition FFmpeg_frame_count :: "tools \<Rightarrow> pathname \<Rightarrow> error + int" where
  "FFmpeg_frame_count T p =
     (case ffprobe_frame_count T p of
        None \<Rightarrow> Inl (FFmpegException ''File does not exist or format not supported.'')
      | Some n \<Rightarrow> Inr n)"

definition FFmpeg_fps :: "tools \<Rightarrow> pathname \<Rightarrow> error + int" where
  "FFmpeg_fps T p =
     (case ffprobe_fps T p of
        None \<Rightarrow> Inl (FFmpegException ''File does not exist or format not supported.'')
      | Some n \<Rightarrow> Inr n)"

definition FFmpeg_dimensions :: "tools \<Rightarrow> pathname \<Rightarrow> error + int \<times> int" where
  "FFmpeg_dimensions T p =
     (case ffprobe_dimensions T p of
        None \<Rightarrow> Inl (FFmpegException ''File does not exist or format not supported.'')
      | Some d \<Rightarrow> Inr d)"

definition FFmpeg_frames_to_video ::
  "tools \<Rightarrow> pathname \<Rightarrow> pathname \<Rightarrow> world \<Rightarrow> (error + unit) \<times> world" where
  "FFmpeg_frames_to_video T pattern out_path w =
     (if ffmpeg_frames_to_video_ok T pattern out_path
      then (Inr (), w\<lparr>fs := (fs w)(out_path \<mapsto> Data)\<rparr>)
      else (Inl (FFmpegException ''File does not exist or format(s) not supported.''), w))"

section \<open>CoreAsciifier\<close>

text \<open>\<^verbatim>\<open>OptionalSize\<close> (typealiases.py): nothing, a width, or a (width, height) tuple.\<close>

datatype out_width = NoWidth | Width int | WidthHeight int int

text \<open>
  The object's fields. \<^verbatim>\<open>self.txt\<close> and \<^verbatim>\<open>self.definition\<close> are \<open>txt_pd\<close> and
  \<open>definition_pd\<close> here, since both names are reserved words.
\<close>

record CoreAsciifier =
  path :: pathname
  is_video :: bool
  frame_count :: "int option"
  fps :: "int option"
  dimensions :: "int \<times> int"
  ratio :: float64
  strict_out_dimensions :: bool
  out_dimensions :: "int \<times> int"
  bg :: PossiblyDynamic
  txt_pd :: PossiblyDynamic
  definition_pd :: PossiblyDynamic
  correction :: PossiblyDynamic
  chars :: PossiblyDynamic
  ascii_art :: string
  definition_height :: "int option"
  text_size :: "int option"
  process_dir :: pathname

text \<open>\<^verbatim>\<open>Path.mkdir(exist_ok=True)\<close>.\<close>

definition mkdir_exist_ok :: "pathname \<Rightarrow> world \<Rightarrow> (error + unit) \<times> world" where
  "mkdir_exist_ok p w =
     (case fs w p of
        None \<Rightarrow> (Inr (), w\<lparr>fs := (fs w)(p \<mapsto> Directory)\<rparr>)
      | Some Directory \<Rightarrow> (Inr (), w)
      | Some other \<Rightarrow> (Inl FileExistsError, w))"

text \<open>
  The probes of \<^verbatim>\<open>__init__\<close> (core.py:112-119): a video is probed with FFmpeg (frame
  count, then fps, then dimensions); an image keeps the caller's frame count and fps.
\<close>

definition probe ::
  "tools \<Rightarrow> pathname \<Rightarrow> bool \<Rightarrow> int option \<Rightarrow> int option \<Rightarrow>
   error + int option \<times> int option \<times> (int \<times> int)" where
  "probe T p video fc fp =
     (if video then
        (case FFmpeg_frame_count T p of
           Inl e \<Rightarrow> Inl e
         | Inr n \<Rightarrow>
             (case FFmpeg_fps T p of
                Inl e \<Rightarrow> Inl e
              | Inr r \<Rightarrow>
                  (case FFmpeg_dimensions T p of
                     Inl e \<Rightarrow> Inl e
                   | Inr d \<Rightarrow> Inr (Some n, Some r, d))))
      else
        (case Magick_dimensions T p of
           Inl e \<Rightarrow> Inl e
         | Inr d \<Rightarrow> Inr (fc, fp, d)))"

text \<open>
  The five resolvers of core.py:130-134, in the order of the source; the first one that
  raises ends the constructor.
\<close>

definition resolvers ::
  "func_or_value \<Rightarrow> func_or_value \<Rightarrow> func_or_value \<Rightarrow> func_or_value \<Rightarrow> func_or_value \<Rightarrow>
   bool \<Rightarrow> int option \<Rightarrow>
   error + PossiblyDynamic \<times> PossiblyDynamic \<times> PossiblyDynamic \<times> PossiblyDynamic \<times> PossiblyDynamic" where
  "resolvers bg0 txt0 definition0 correction0 chars0 reverse_chars fc =
     (case PossiblyDynamic_init bg0 fc True False of
        Inl e \<Rightarrow> Inl e
      | Inr b \<Rightarrow>
     (case PossiblyDynamic_init txt0 fc True False of
        Inl e \<Rightarrow> Inl e
      | Inr t \<Rightarrow>
     (case PossiblyDynamic_init definition0 fc False False of
        Inl e \<Rightarrow> Inl e
      | Inr d \<Rightarrow>
     (case PossiblyDynamic_init correction0 fc False False of
        Inl e \<Rightarrow> Inl e
      | Inr c \<Rightarrow>
     (case PossiblyDynamic_init chars0 fc False reverse_chars of
        Inl e \<Rightarrow> Inl e
      | Inr ch \<Rightarrow> Inr (b, t, d, c, ch))))))"

text \<open>The three \<^verbatim>\<open>mkdir\<close> calls of core.py:141-143.\<close>

definition make_process_dirs :: "pathname \<Rightarrow> world \<Rightarrow> (error + unit) \<times> world" where
  "make_process_dirs pd w =
     (case mkdir_exist_ok pd w of
        (Inl e, w1) \<Rightarrow> (Inl e, w1)
      | (Inr u, w1) \<Rightarrow>
     (case mkdir_exist_ok (pd @ [''Frames'']) w1 of
        (Inl e, w2) \<Rightarrow> (Inl e, w2)
      | (Inr u, w2) \<Rightarrow> mkdir_exist_ok (pd @ [''NewFrames'']) w2))"

text \<open>
  \<^verbatim>\<open>CoreAsciifier.__init__\<close> (core.py:75-143). \<^verbatim>\<open>dimensions[1] / dimensions[0]\<close> raises
  ZeroDivisionError for a zero width; \<^verbatim>\<open>out_width or self.dimensions[0]\<close> takes the source
  width for \<^verbatim>\<open>None\<close> and for 0, and the output height is \<^verbatim>\<open>int(out_width * self.ratio)\<close>
  in float arithmetic. No argument is validated beyond this.
\<close>

definition CoreAsciifier_init ::
  "tools \<Rightarrow> pathname \<Rightarrow> func_or_value \<Rightarrow> func_or_value \<Rightarrow> func_or_value \<Rightarrow> out_width \<Rightarrow> bool \<Rightarrow>
   func_or_value \<Rightarrow> func_or_value \<Rightarrow> bool \<Rightarrow> int option \<Rightarrow> int option \<Rightarrow> world \<Rightarrow>
   (error + CoreAsciifier) \<times> world" where
  "CoreAsciifier_init T path0 bg0 txt0 definition0 out_width0 strict0 correction0 chars0
       reverse_chars frame_count0 fps0 w =
     (let video = lower (drop 1 (suffix_of path0)) \<in> set [''mp4'', ''mov'', ''m4v'', ''webm'', ''avi'']
      in if fs w path0 = None then (Inl FileNotFoundError, w)
      else
        (case probe T path0 video frame_count0 fps0 of
           Inl e \<Rightarrow> (Inl e, w)
         | Inr (fc, fp, dims) \<Rightarrow>
        (case int_truediv (snd dims) (fst dims) of
           Inl e \<Rightarrow> (Inl e, w)
         | Inr r \<Rightarrow>
        (case (case out_width0 of
                 WidthHeight a b \<Rightarrow> Inr (a, b)
               | Width x \<Rightarrow>
                   (let ow = (if x = 0 then fst dims else x)
                    in case int_of_product ow r of
                         Inl e \<Rightarrow> Inl e
                       | Inr oh \<Rightarrow> Inr (ow, oh))
               | NoWidth \<Rightarrow>
                   (case int_of_product (fst dims) r of
                      Inl e \<Rightarrow> Inl e
                    | Inr oh \<Rightarrow> Inr (fst dims, oh))) of
           Inl e \<Rightarrow> (Inl e, w)
         | Inr out_dims \<Rightarrow>
        (case resolvers bg0 txt0 definition0 correction0 chars0 reverse_chars fc of
           Inl e \<Rightarrow> (Inl e, w)
         | Inr (b, t, d, c, ch) \<Rightarrow>
             (let pd = parent path0 @ [''asciipixels'']
              in case make_process_dirs pd w of
                   (Inl e, w1) \<Rightarrow> (Inl e, w1)
                 | (Inr u, w1) \<Rightarrow>
                     (Inr \<lparr>path = path0, is_video = video, frame_count = fc, fps = fp,
                           dimensions = dims, ratio = r,
                           strict_out_dimensions = strict0, out_dimensions = out_dims,
                           bg = b, txt_pd = t, definition_pd = d, correction = c, chars = ch,
                           ascii_art = [], definition_height = None, text_size = None,
                           process_dir = pd\<rparr>, w1)))))))"

text \<open>
  The float literals of \<^verbatim>\<open>figure_out_sizes\<close>: \<^verbatim>\<open>1.7\<close> is the float nearest to 17/10;
  \<^verbatim>\<open>1.5\<close> and \<^verbatim>\<open>0.5\<close> are the binary fractions 3/2 and 1/2.
\<close>

definition one_point_seven :: float64 where
  "one_point_seven = round64 (17 / 10)"

text \<open>
  Line 168 of core.py, \<^verbatim>\<open>int(ceil((self.out_dimensions[0] * 1.7) / definition))\<close>: the
  width is converted and multiplied first, then divided by the definition.
\<close>

definition text_size_of :: "int \<Rightarrow> pyval \<Rightarrow> error + int" where
  "text_size_of ow definition0 =
     (case float_of_int ow of
        Inl e \<Rightarrow> Inl e
      | Inr a \<Rightarrow>
     (case as_float definition0 of
        Inl e \<Rightarrow> Inl e
      | Inr d \<Rightarrow>
     (case fdiv (fmul a one_point_seven) d of
        Inl e \<Rightarrow> Inl e
      | Inr q \<Rightarrow> py_ceil q)))"

text \<open>
  The correction of lines 172-176: the given number, or for \<^verbatim>\<open>None\<close> the measured width
  over the measured height of a definition x definition block. \<^verbatim>\<open>Magick.text_dimensions\<close>
  builds its block with \<^verbatim>\<open>'|' * (cols - 2)\<close>, which needs an \<^verbatim>\<open>int\<close>.
\<close>

definition find_correction ::
  "tools \<Rightarrow> pyval \<Rightarrow> pyval \<Rightarrow> int \<Rightarrow> int \<Rightarrow> error + float64" where
  "find_correction T definition0 correction0 ts ow =
     (case correction0 of
        PNone \<Rightarrow>
          (case int_of_product ow (Finite (3 / 2)) of
             Inl e \<Rightarrow> Inl e
           | Inr w \<Rightarrow>
               (case definition0 of
                  PInt cols \<Rightarrow>
                    (case Magick_text_dimensions T cols cols ts w (ow * 2) of
                       Inl e \<Rightarrow> Inl e
                     | Inr (txt_w, txt_h) \<Rightarrow> int_truediv txt_w txt_h)
                | _ \<Rightarrow> Inl TypeError))
      | _ \<Rightarrow> as_float correction0)"

text \<open>
  Line 178, \<^verbatim>\<open>int(definition * self.ratio * correction)\<close>: the two products are taken
  from left to right, each rounded, and the result is truncated toward zero.
\<close>

definition definition_height_of :: "pyval \<Rightarrow> float64 \<Rightarrow> float64 \<Rightarrow> error + int" where
  "definition_height_of definition0 r c =
     (case as_float definition0 of
        Inl e \<Rightarrow> Inl e
      | Inr d \<Rightarrow> py_int (fmul (fmul d r) c))"

text \<open>Line 190, \<^verbatim>\<open>int(txt_w * 0.5) * 2\<close>.\<close>

definition even_size :: "int \<Rightarrow> error + int" where
  "even_size n =
     (case int_of_product n (Finite (1 / 2)) of
        Inl e \<Rightarrow> Inl e
      | Inr k \<Rightarrow> Inr (k * 2))"

text \<open>
  \<^verbatim>\<open>CoreAsciifier.figure_out_sizes\<close> (core.py:152-192). A method that raises ends the run,
  so the object is returned only when the method returns.
\<close>

definition figure_out_sizes ::
  "tools \<Rightarrow> CoreAsciifier \<Rightarrow> int option \<Rightarrow> bool \<Rightarrow> bool \<Rightarrow> error + CoreAsciifier" where
  "figure_out_sizes T self frame fine_tune even_sizes =
     (case getitem (definition_pd self) frame of
        Inl e \<Rightarrow> Inl e
      | Inr definition0 \<Rightarrow>
     (case getitem (correction self) frame of
        Inl e \<Rightarrow> Inl e
      | Inr correction0 \<Rightarrow>
     (case text_size_of (fst (out_dimensions self)) definition0 of
        Inl e \<Rightarrow> Inl e
      | Inr ts \<Rightarrow>
     (case find_correction T definition0 correction0 ts (fst (out_dimensions self)) of
        Inl e \<Rightarrow> Inl e
      | Inr c \<Rightarrow>
     (case definition_height_of definition0 (ratio self) c of
        Inl e \<Rightarrow> Inl e
      | Inr dh \<Rightarrow>
          (let self1 = self\<lparr>text_size := Some ts, definition_height := Some dh\<rparr>
           in if strict_out_dimensions self \<or> \<not> fine_tune then Inr self1
              else
                (case int_of_product (fst (out_dimensions self)) (Finite (3 / 2)) of
                   Inl e \<Rightarrow> Inl e
                 | Inr w \<Rightarrow>
                (case definition0 of
                   PInt cols \<Rightarrow>
                     (case Magick_text_dimensions T cols dh ts w
                             (snd (out_dimensions self) * 2) of
                        Inl e \<Rightarrow> Inl e
                      | Inr (txt_w, txt_h) \<Rightarrow>
                          if even_sizes then
                            (case even_size txt_w of
                               Inl e \<Rightarrow> Inl e
                             | Inr ew \<Rightarrow>
                            (case even_size txt_h of
                               Inl e \<Rightarrow> Inl e
                             | Inr eh \<Rightarrow> Inr (self1\<lparr>out_dimensions := (ew, eh)\<rparr>)))
                          else Inr (self1\<lparr>out_dimensions := (txt_w, txt_h)\<rparr>))
                 | _ \<Rightarrow> Inl TypeError))))))))"

text \<open>
  \<^verbatim>\<open>*self.bg[frame]\<close> and \<^verbatim>\<open>*self.txt[frame]\<close> must unpack into exactly the three
  arguments r, g, b of the wrapper.
\<close>

fun unpack_rgb :: "pyval \<Rightarrow> error + pyval \<times> pyval \<times> pyval" where
  "unpack_rgb (PTuple [r, g, b]) = Inr (r, g, b)"
| "unpack_rgb (PList [r, g, b]) = Inr (r, g, b)"
| "unpack_rgb (PStr [r, g, b]) = Inr (PStr [r], PStr [g], PStr [b])"
| "unpack_rgb v = Inl TypeError"

text \<open>\<^verbatim>\<open>CoreAsciifier.generate_canvas\<close> (core.py:194-202).\<close>

definition generate_canvas ::
  "tools \<Rightarrow> CoreAsciifier \<Rightarrow> int option \<Rightarrow> world \<Rightarrow> (error + pathname) \<times> world" where
  "generate_canvas T self frame w =
     (let canvas_path = process_dir self @ [''canvas.png'']
      in case getitem (bg self) frame of
           Inl e \<Rightarrow> (Inl e, w)
         | Inr c \<Rightarrow>
        (case unpack_rgb c of
           Inl e \<Rightarrow> (Inl e, w)
         | Inr rgb \<Rightarrow>
        (case Magick_blank_png T canvas_path
                (fst (out_dimensions self)) (snd (out_dimensions self)) w of
           (Inl e, w1) \<Rightarrow> (Inl e, w1)
         | (Inr u, w1) \<Rightarrow> (Inr canvas_path, w1))))"

text \<open>\<^verbatim>\<open>len(v)\<close>: only sequences have a length.\<close>

fun py_len :: "pyval \<Rightarrow> error + int" where
  "py_len (PStr s) = Inr (int (length s))"
| "py_len (PTuple xs) = Inr (int (length xs))"
| "py_len (PList xs) = Inr (int (length xs))"
| "py_len v = Inl TypeError"

text \<open>
  The loop of \<^verbatim>\<open>generate_ascii_art\<close> (core.py:218-223): \<open>k\<close> counts the pixels from 1,
  and a line break follows every pixel whose count is a multiple of the definition. The
  ramp is subscripted for every pixel; \<^verbatim>\<open>resp += char\<close> takes a \<^verbatim>\<open>str\<close> only.
\<close>

fun ascii_loop :: "pyval \<Rightarrow> int \<Rightarrow> int \<Rightarrow> int list \<Rightarrow> string \<Rightarrow> error + string" where
  "ascii_loop cs d k [] resp = Inr resp"
| "ascii_loop cs d k (pixel # rest) resp =
     (case py_len cs of
        Inl e \<Rightarrow> Inl e
      | Inr n \<Rightarrow>
     (case py_subscript cs ((pixel * (n - 1)) div 255) of
        Inl e \<Rightarrow> Inl e
      | Inr (PStr c) \<Rightarrow>
          if d = 0 then Inl ZeroDivisionError
          else ascii_loop cs d (k + 1) rest
                 (if k mod d = 0 then resp @ c @ [CHR 0x0A] else resp @ c)
      | Inr other \<Rightarrow> Inl TypeError))"

text \<open>
  \<^verbatim>\<open>CoreAsciifier.generate_ascii_art\<close> (core.py:204-225). Line 214 picks the image to
  read: the extracted frame for a video, the source file otherwise. The resampled
  luminance data comes from PIL, which wants an \<^verbatim>\<open>int\<close> width and height.
\<close>

definition frame_source :: "CoreAsciifier \<Rightarrow> int option \<Rightarrow> pathname" where
  "frame_source self frame =
     (case (is_video self, frame) of
        (True, Some f) \<Rightarrow> process_dir self @ [''Frames'', ''frame'' @ str_int f @ ''.png'']
      | _ \<Rightarrow> path self)"

definition generate_ascii_art ::
  "tools \<Rightarrow> CoreAsciifier \<Rightarrow> int option \<Rightarrow> error + string \<times> CoreAsciifier" where
  "generate_ascii_art T self frame =
     (if is_video self \<and> frame = None
      then Inl (AsciifierException ''Frame was not specified for ascii art generation.'')
      else
        (case getitem (definition_pd self) frame of
           Inl e \<Rightarrow> Inl e
         | Inr definition0 \<Rightarrow>
        (case getitem (chars self) frame of
           Inl e \<Rightarrow> Inl e
         | Inr chars0 \<Rightarrow>
        (case (definition0, definition_height self) of
           (PInt d, Some dh) \<Rightarrow>
             (case pil_getdata T (frame_source self frame) d dh of
                Inl e \<Rightarrow> Inl e
              | Inr pixels \<Rightarrow>
                  (case ascii_loop chars0 d 1 pixels [] of
                     Inl e \<Rightarrow> Inl e
                   | Inr resp \<Rightarrow> Inr (resp, self\<lparr>ascii_art := resp\<rparr>)))
         | _ \<Rightarrow> Inl TypeError))))"

text \<open>
  The lines of a text block, each ended by a line break, as \<^verbatim>\<open>str.splitlines\<close> gives
  them. It is used to state what \<^verbatim>\<open>generate_ascii_art\<close> returns.
\<close>

fun split_lines :: "string \<Rightarrow> string list" where
  "split_lines [] = []"
| "split_lines (c # cs) =
     (if c = CHR 0x0A then [] # split_lines cs
      else (case split_lines cs of [] \<Rightarrow> [[c]] | l # ls \<Rightarrow> (c # l) # ls))"

text \<open>
  \<^verbatim>\<open>CoreAsciifier.draw_ascii_art\<close> (core.py:227-242). \<^verbatim>\<open>if frame\<close> is false for
  \<^verbatim>\<open>None\<close> and for 0: then the output goes next to the source file.
\<close>

definition draw_ascii_art ::
  "tools \<Rightarrow> CoreAsciifier \<Rightarrow> int option \<Rightarrow> string \<Rightarrow> world \<Rightarrow> (error + pathname) \<times> world" where
  "draw_ascii_art T self frame gravity w =
     (if is_video self \<and> frame = None
      then (Inl (AsciifierException ''Frame was not specified for image generation.''), w)
      else
        (let canvas_path = process_dir self @ [''canvas.png'']
         in case (case frame of
                    Some f \<Rightarrow>
                      if f \<noteq> 0
                      then Inr (process_dir self @ [''NewFrames'', ''frame'' @ str_int f @ ''.png''])
                      else safe_path T (fs w) (path self) None
                  | None \<Rightarrow> safe_path T (fs w) (path self) None) of
              Inl e \<Rightarrow> (Inl e, w)
            | Inr out_path \<Rightarrow>
           (case getitem (txt_pd self) frame of
              Inl e \<Rightarrow> (Inl e, w)
            | Inr c \<Rightarrow>
           (case unpack_rgb c of
              Inl e \<Rightarrow> (Inl e, w)
            | Inr rgb \<Rightarrow>
           (case Magick_text_overlay T canvas_path out_path (ascii_art self) (text_size self)
                   gravity w of
              (Inl e, w1) \<Rightarrow> (Inl e, w1)
            | (Inr u, w1) \<Rightarrow> (Inr out_path, w1))))))"

text \<open>A list comprehension whose body can raise: the first exception ends it.\<close>

fun map_err :: "('a \<Rightarrow> error + 'b) \<Rightarrow> 'a list \<Rightarrow> error + 'b list" where
  "map_err f [] = Inr []"
| "map_err f (x # xs) =
     (case f x of
        Inl e \<Rightarrow> Inl e
      | Inr y \<Rightarrow> (case map_err f xs of Inl e \<Rightarrow> Inl e | Inr ys \<Rightarrow> Inr (y # ys)))"

text \<open>
  \<^verbatim>\<open>CoreAsciifier.test_dynamic_params\<close> (core.py:244-253): a header row, then one row per
  frame with the frame number and the values of the dynamic parameters only.
\<close>

definition test_dynamic_params :: "CoreAsciifier \<Rightarrow> error + pyval list" where
  "test_dynamic_params self =
     (case frame_count self of
        None \<Rightarrow> Inl TypeError
      | Some n \<Rightarrow>
          (let models = filter (\<lambda>(model, header). is_dynamic model)
                 [(bg self, ''BG Color''), (txt_pd self, ''Text Color''),
                  (definition_pd self, ''Definition''), (correction self, ''Correction''),
                   (chars self, ''Chars'')]
           in case map_err (\<lambda>(model, header). map_err (\<lambda>i. getitem model (Some i)) [1..n]) models of
                Inl e \<Rightarrow> Inl e
              | Inr cols \<Rightarrow>
                  Inr (PTuple (map PStr (''Frame'' # map snd models))
                       # map PTuple (transpose (map PInt [1..n] # cols)))))"

text \<open>
  \<^verbatim>\<open>shutil.rmtree\<close> in \<^verbatim>\<open>remove_process_dir\<close> (core.py:255-257) deletes the directory and
  everything below it; it raises when the path is missing or is not a directory.
\<close>

definition remove_process_dir :: "CoreAsciifier \<Rightarrow> world \<Rightarrow> (error + unit) \<times> world" where
  "remove_process_dir self w =
     (case fs w (process_dir self) of
        None \<Rightarrow> (Inl FileNotFoundError, w)
      | Some Directory \<Rightarrow>
          (Inr (), w\<lparr>fs := (\<lambda>p. if prefix (process_dir self) p then None else fs w p)\<rparr>)
      | Some other \<Rightarrow> (Inl NotADirectoryError, w))"

text \<open>\<^verbatim>\<open>CoreAsciifier.__exit__\<close> (core.py:148-150).\<close>

definition CoreAsciifier_exit :: "CoreAsciifier \<Rightarrow> world \<Rightarrow> (error + unit) \<times> world" where
  "CoreAsciifier_exit self w =
     (case remove_process_dir self w of
        (Inl e, w1) \<Rightarrow> (Inl e, w1)
      | (Inr u, w1) \<Rightarrow> (Inr (), w1\<lparr>ASCIIPIXELS_PROCESS := 0\<rparr>))"

text \<open>
  The statement \<^verbatim>\<open>with core: body\<close>. \<^verbatim>\<open>__enter__\<close> returns the object; \<^verbatim>\<open>__exit__\<close> runs
  whether the body returned or raised, and as it returns \<^verbatim>\<open>None\<close> an exception of the
  body propagates. An exception of \<^verbatim>\<open>__exit__\<close> itself replaces the outcome.
\<close>

definition with_core ::
  "CoreAsciifier \<Rightarrow> (world \<Rightarrow> (error + 'a) \<times> world) \<Rightarrow> world \<Rightarrow> (error + 'a) \<times> world" where
  "with_core core body w =
     (case body w of
        (r, w1) \<Rightarrow>
          (case CoreAsciifier_exit core w1 of
             (Inl e, w2) \<Rightarrow> (Inl e, w2)
           | (Inr u, w2) \<Rightarrow> (r, w2)))"

text \<open>\<^verbatim>\<open>CoreAsciifier.frames_to_video\<close> (core.py:263-274).\<close>

definition frames_to_video ::
  "tools \<Rightarrow> CoreAsciifier \<Rightarrow> pathname option \<Rightarrow> string \<Rightarrow> world \<Rightarrow> (error + pathname) \<times> world" where
  "frames_to_video T self out_path ext w =
     (case (case out_path of
              None \<Rightarrow> safe_path T (fs w) (path self) (Some ext)
            | Some p \<Rightarrow> Inr p) of
        Inl e \<Rightarrow> (Inl e, w)
      | Inr p \<Rightarrow>
          (case FFmpeg_frames_to_video T (process_dir self @ [''NewFrames'', ''frame%01d.png'']) p w of
             (Inl e, w1) \<Rightarrow> (Inl e, w1)
           | (Inr u, w1) \<Rightarrow> (Inr p, w1)))"

text \<open>\<^verbatim>\<open>utils.multiprocessing_guard\<close> (utils.py:19-29).\<close>

definition multiprocessing_guard :: "world \<Rightarrow> (error + unit) \<times> world" where
  "multiprocessing_guard w =
     (if ASCIIPIXELS_PROCESS w \<noteq> 0 then (Inl SystemExit, w)
      else (Inr (), w\<lparr>ASCIIPIXELS_PROCESS := 1\<rparr>))"

section \<open>The image module\<close>

text \<open>
  \<^verbatim>\<open>dynamic_single_frame\<close> (image.py:12-16, video.py:37-41), the task of one worker
  process. The worker works on its own copy of the object; the copy is returned here so
  that it can be inspected, the source returns \<^verbatim>\<open>None\<close>.
\<close>

definition dynamic_single_frame ::
  "tools \<Rightarrow> int \<Rightarrow> CoreAsciifier \<Rightarrow> world \<Rightarrow> (error + CoreAsciifier) \<times> world" where
  "dynamic_single_frame T frame core w =
     (case figure_out_sizes T core (Some frame) False True of
        Inl e \<Rightarrow> (Inl e, w)
      | Inr core1 \<Rightarrow>
     (case generate_ascii_art T core1 (Some frame) of
        Inl e \<Rightarrow> (Inl e, w)
      | Inr (art, core2) \<Rightarrow>
     (case draw_ascii_art T core2 (Some frame) ''Center'' w of
        (Inl e, w1) \<Rightarrow> (Inl e, w1)
      | (Inr out_path, w1) \<Rightarrow> (Inr core2, w1))))"

text \<open>
  The pool: one task per frame, each on the object as it was when the task was submitted.
  Leaving the \<^verbatim>\<open>with ProcessPoolExecutor()\<close> block waits for every task, so all of them
  run; each task writes its own file, and their effects are taken in frame order.
  \<open>run_tasks\<close> gives the outcome of every task, in the order of submission.
\<close>

fun run_tasks ::
  "(int \<Rightarrow> world \<Rightarrow> (error + 'a) \<times> world) \<Rightarrow> int list \<Rightarrow> world \<Rightarrow> (error + 'a) list \<times> world" where
  "run_tasks worker [] w = ([], w)"
| "run_tasks worker (f # rest) w =
     (case worker f w of
        (r, w1) \<Rightarrow>
          (case run_tasks worker rest w1 of
             (rs, w2) \<Rightarrow> (r # rs, w2)))"

text \<open>
  \<^verbatim>\<open>for future in as_completed(futures): future.result()\<close> takes the tasks in the order
  in which they finish, and \<^verbatim>\<open>future.result()\<close> re-raises the exception of the first
  failed one it meets.
\<close>

fun first_raised :: "nat list \<Rightarrow> (error + 'a) list \<Rightarrow> error option" where
  "first_raised [] rs = None"
| "first_raised (i # order) rs =
     (if i < length rs
      then (case rs ! i of Inl e \<Rightarrow> Some e | Inr x \<Rightarrow> first_raised order rs)
      else first_raised order rs)"

text \<open>
  The pool as a whole. Every task is waited for: a position that the given order leaves
  out is taken after the listed ones.
\<close>

definition run_pool ::
  "tools \<Rightarrow> (int \<Rightarrow> world \<Rightarrow> (error + 'a) \<times> world) \<Rightarrow> int list \<Rightarrow> world \<Rightarrow> (error + unit) \<times> world" where
  "run_pool T worker frames w =
     (case run_tasks worker frames w of
        (rs, w1) \<Rightarrow>
          (case first_raised (as_completed T (length rs) @ [0..<length rs]) rs of
             Some e \<Rightarrow> (Inl e, w1)
           | None \<Rightarrow> (Inr (), w1)))"

text \<open>
  Comparison of floats, and of the numbers two values stand for: an \<^verbatim>\<open>int\<close> is compared
  by its exact value, also with a float.
\<close>

fun float_less :: "float64 \<Rightarrow> float64 \<Rightarrow> bool" where
  "float_less (Finite a) (Finite b) = (a < b)"
| "float_less (Finite a) (Infinite t) = (\<not> t)"
| "float_less (Infinite s) (Finite b) = s"
| "float_less (Infinite s) (Infinite t) = (s \<and> \<not> t)"
| "float_less NaN y = False"
| "float_less x NaN = False"

fun number_of :: "pyval \<Rightarrow> float64 option" where
  "number_of (PInt i) = Some (Finite (of_int i))"
| "number_of (PFloat r) = Some (round64 r)"
| "number_of v = None"

text \<open>\<^verbatim>\<open>s > t\<close> on strings: lexicographic, by code point.\<close>

fun str_greater :: "string \<Rightarrow> string \<Rightarrow> bool" where
  "str_greater [] t = False"
| "str_greater (c # s) [] = True"
| "str_greater (c # s) (d # t) =
     (if c = d then str_greater s t else (of_char d :: nat) < of_char c)"

text \<open>
  \<^verbatim>\<open>x == y\<close>: numbers by value, strings, tuples and lists element by element; values of
  different kinds are unequal.
\<close>

fun py_eq :: "pyval \<Rightarrow> pyval \<Rightarrow> bool"
  and py_eq_list :: "pyval list \<Rightarrow> pyval list \<Rightarrow> bool" where
  "py_eq PNone y = (y = PNone)"
| "py_eq (PInt i) y = (number_of y = Some (Finite (of_int i)))"
| "py_eq (PFloat r) y = (number_of y = Some (round64 r))"
| "py_eq (PStr s) y = (y = PStr s)"
| "py_eq (PTuple xs) y = (case y of PTuple ys \<Rightarrow> py_eq_list xs ys | _ \<Rightarrow> False)"
| "py_eq (PList xs) y = (case y of PList ys \<Rightarrow> py_eq_list xs ys | _ \<Rightarrow> False)"
| "py_eq_list [] ys = (ys = [])"
| "py_eq_list (x # xs) ys = (case ys of [] \<Rightarrow> False | y # ys' \<Rightarrow> py_eq x y \<and> py_eq_list xs ys')"

text \<open>
  \<^verbatim>\<open>x > y\<close>: defined between two numbers, two strings, two tuples and two lists, a
  TypeError otherwise. Sequences are compared at the first position where they differ,
  and by length when one is a prefix of the other.
\<close>

fun py_gt :: "pyval \<Rightarrow> pyval \<Rightarrow> error + bool"
  and py_gt_list :: "pyval list \<Rightarrow> pyval list \<Rightarrow> error + bool" where
  "py_gt PNone y = Inl TypeError"
| "py_gt (PInt i) y =
     (case number_of y of None \<Rightarrow> Inl TypeError | Some b \<Rightarrow> Inr (float_less b (Finite (of_int i))))"
| "py_gt (PFloat r) y =
     (case number_of y of None \<Rightarrow> Inl TypeError | Some b \<Rightarrow> Inr (float_less b (round64 r)))"
| "py_gt (PStr s) y = (case y of PStr t \<Rightarrow> Inr (str_greater s t) | _ \<Rightarrow> Inl TypeError)"
| "py_gt (PTuple xs) y = (case y of PTuple ys \<Rightarrow> py_gt_list xs ys | _ \<Rightarrow> Inl TypeError)"
| "py_gt (PList xs) y = (case y of PList ys \<Rightarrow> py_gt_list xs ys | _ \<Rightarrow> Inl TypeError)"
| "py_gt_list [] ys = Inr False"
| "py_gt_list (x # xs) ys =
     (case ys of
        [] \<Rightarrow> Inr True
      | y # ys' \<Rightarrow> if py_eq x y then py_gt_list xs ys' else py_gt x y)"

text \<open>
  \<^verbatim>\<open>max(xs)\<close>: the first element is the candidate, and a later element replaces it when
  it is greater; \<^verbatim>\<open>max\<close> of an empty sequence raises ValueError. \<^verbatim>\<open>xs.index(m)\<close>: the
  position, counted from 0, of the first element equal to \<open>m\<close>.
\<close>

fun max_from :: "pyval \<Rightarrow> pyval list \<Rightarrow> error + pyval" where
  "max_from m [] = Inr m"
| "max_from m (x # xs) =
     (case py_gt x m of
        Inl e \<Rightarrow> Inl e
      | Inr b \<Rightarrow> max_from (if b then x else m) xs)"

fun py_max :: "pyval list \<Rightarrow> error + pyval" where
  "py_max [] = Inl ValueError"
| "py_max (x # xs) = max_from x xs"

fun py_index :: "pyval \<Rightarrow> pyval list \<Rightarrow> error + int" where
  "py_index m [] = Inl ValueError"
| "py_index m (x # xs) =
     (if py_eq x m then Inr 0
      else (case py_index m xs of Inl e \<Rightarrow> Inl e | Inr i \<Rightarrow> Inr (i + 1)))"

text \<open>
  Line 130 of image.py: \<^verbatim>\<open>core.definition.value.index(max(core.definition.value))\<close>.
  The stored value is the list of per-frame definitions for a callable and the plain
  value otherwise. The attribute \<^verbatim>\<open>index\<close> is looked up before \<^verbatim>\<open>max\<close> is called: lists,
  tuples and strings have it, an \<^verbatim>\<open>int\<close>, a \<^verbatim>\<open>float\<close> and \<^verbatim>\<open>None\<close> do not, which is an
  AttributeError. The elements of a string are its characters.
\<close>

definition max_def_frame :: "CoreAsciifier \<Rightarrow> error + int" where
  "max_def_frame core =
     (case (case value_pd (definition_pd core) of
              PList xs \<Rightarrow> Inr xs
            | PTuple xs \<Rightarrow> Inr xs
            | PStr cs \<Rightarrow> Inr (map (\<lambda>c. PStr [c]) cs)
            | _ \<Rightarrow> Inl AttributeError) of
        Inl e \<Rightarrow> Inl e
      | Inr xs \<Rightarrow>
          (case py_max xs of
             Inl e \<Rightarrow> Inl e
           | Inr m \<Rightarrow> py_index m xs))"

text \<open>
  The body of the \<^verbatim>\<open>with\<close> block of \<^verbatim>\<open>image.dynamic_asciify\<close> (image.py:126-145).
  Progress printing is left out.
\<close>

definition image_dynamic_body ::
  "tools \<Rightarrow> CoreAsciifier \<Rightarrow> int \<Rightarrow> bool \<Rightarrow> bool \<Rightarrow> world \<Rightarrow>
   (error + pyval list option) \<times> world" where
  "image_dynamic_body T core frame_count0 gif test w =
     (if test then
        (case test_dynamic_params core of
           Inl e \<Rightarrow> (Inl e, w)
         | Inr table \<Rightarrow> (Inr (Some table), w))
      else
        (case max_def_frame core of
           Inl e \<Rightarrow> (Inl e, w)
         | Inr m \<Rightarrow>
        (case figure_out_sizes T core (Some m) True True of
           Inl e \<Rightarrow> (Inl e, w)
         | Inr core1 \<Rightarrow>
        (case generate_canvas T core1 (Some m) w of
           (Inl e, w1) \<Rightarrow> (Inl e, w1)
         | (Inr canvas_path, w1) \<Rightarrow>
        (case run_pool T (\<lambda>f. dynamic_single_frame T f core1) [1..frame_count0] w1 of
           (Inl e, w2) \<Rightarrow> (Inl e, w2)
         | (Inr u, w2) \<Rightarrow>
        (case frames_to_video T core1 None (if gif then ''gif'' else ''mp4'') w2 of
           (Inl e, w3) \<Rightarrow> (Inl e, w3)
         | (Inr out_path, w3) \<Rightarrow> (Inr None, w3)))))))"

text \<open>\<^verbatim>\<open>image.dynamic_asciify\<close> (image.py:67-145).\<close>

definition image_dynamic_asciify ::
  "tools \<Rightarrow> pathname \<Rightarrow> func_or_value \<Rightarrow> func_or_value \<Rightarrow> func_or_value \<Rightarrow> out_width \<Rightarrow> bool \<Rightarrow>
   int \<Rightarrow> int \<Rightarrow> bool \<Rightarrow> func_or_value \<Rightarrow> func_or_value \<Rightarrow> bool \<Rightarrow> bool \<Rightarrow> world \<Rightarrow>
   (error + pyval list option) \<times> world" where
  "image_dynamic_asciify T path0 bg_color txt_color definition0 out_width0 strict0
       frame_count0 fps0 gif correction0 chars0 reverse_chars test w =
     (case multiprocessing_guard w of
        (Inl e, w0) \<Rightarrow> (Inl e, w0)
      | (Inr u, w0) \<Rightarrow>
     (case CoreAsciifier_init T path0 bg_color txt_color definition0 out_width0 strict0
             correction0 chars0 reverse_chars (Some frame_count0) (Some fps0) w0 of
        (Inl e, w1) \<Rightarrow> (Inl e, w1)
      | (Inr core, w1) \<Rightarrow>
          with_core core (image_dynamic_body T core frame_count0 gif test) w1))"



section \<open>The video module\<close>



text \<open>\<^verbatim>\<open>asciify_single_frame\<close> (video.py:31-34), the worker of \<^verbatim>\<open>video.asciify\<close>.\<close>

definition asciify_single_frame ::
  "tools \<Rightarrow> int \<Rightarrow> CoreAsciifier \<Rightarrow> world \<Rightarrow> (error + CoreAsciifier) \<times> world" where
  "asciify_single_frame T frame core w =
     (case generate_ascii_art T core (Some frame) of
        Inl e \<Rightarrow> (Inl e, w)
      | Inr (art, core1) \<Rightarrow>
     (case draw_ascii_art T core1 (Some frame) ''Northwest'' w of
        (Inl e, w1) \<Rightarrow> (Inl e, w1)
      | (Inr out_path, w1) \<Rightarrow> (Inr core1, w1)))"






section \<open>A concrete environment\<close>

text \<open>
  An image foo.png of 800 x 600 pixels and collaborators that always succeed: a glyph of
  point size \<open>s\<close> is taken to be \<open>s / 2\<close> wide and \<open>s\<close> high (plus one pixel of
  margin on each axis), the resampled luminance data is a fixed pattern, and the tasks of
  a pool finish last submitted first. They are used to run the model on concrete inputs.
\<close>

definition example_tools :: tools where
  "example_tools =
     \<lparr>identify_dimensions = (\<lambda>p. Some (800, 600)),
      convert_text_dimensions = (\<lambda>cols lines sz w h. Some (cols * sz div 2 + 1, lines * sz + 1)),
      convert_blank_ok = (\<lambda>p w h. True),
      convert_overlay_ok = (\<lambda>p out_path text sz gravity. True),
      ffprobe_frame_count = (\<lambda>p. None),
      ffprobe_fps = (\<lambda>p. None),
      ffprobe_dimensions = (\<lambda>p. None),
      ffmpeg_frames_to_video_ok = (\<lambda>pattern out_path. True),
      ffmpeg_video_to_frames = (\<lambda>p pattern. None),
      ffmpeg_extract_audio_ok = (\<lambda>p out_path. False),
      ffmpeg_join_streams_ok = (\<lambda>p out_path w h audio. True),
      pil_getdata = (\<lambda>p w h. if 0 < w \<and> 0 < h
                               then Inr (map (\<lambda>k. (k * 37) mod 256) [0..w * h - 1])
                               else Inl ValueError),
      safe_path = (\<lambda>files p ext. Inr (parent p @ [''out''])),
      as_completed = (\<lambda>n. rev [0..<n])\<rparr>"

definition example_world :: world where
  "example_world = \<lparr>fs = [[''foo.png''] \<mapsto> Image 800 600], ASCIIPIXELS_PROCESS = 0\<rparr>"

text \<open>The resolver that \<^verbatim>\<open>PossiblyDynamic(v, ...)\<close> builds for a hard-coded value.\<close>

definition static_pd :: "pyval \<Rightarrow> bool \<Rightarrow> bool \<Rightarrow> PossiblyDynamic" where
  "static_pd v ct rv = \<lparr>is_dynamic = False, value_pd = v, color_type = ct, reverse = rv\<rparr>"

text \<open>
  The object that \<^verbatim>\<open>CoreAsciifier('foo.png', definition=..., correction=...,
  strict_out_dimensions=...)\<close> builds in this environment, given its definition and
  correction resolvers.
\<close>

definition example_core :: "PossiblyDynamic \<Rightarrow> PossiblyDynamic \<Rightarrow> bool \<Rightarrow> int option \<Rightarrow> CoreAsciifier" where
  "example_core d c strict fc =
     \<lparr>path = [''foo.png''], is_video = False, frame_count = fc, fps = None,
      dimensions = (800, 600), ratio = Finite (3 / 4), strict_out_dimensions = strict,
      out_dimensions = (800, 600),
      bg = static_pd (PInt 30) True False, txt_pd = static_pd (PInt 255) True False,
      definition_pd = d, correction = c,
      chars = static_pd (PStr '' .:-=+*$@#'') False False,
      ascii_art = [], definition_height = None, text_size = None,
      process_dir = [''asciipixels'']\<rparr>"

text \<open>
  Two definition functions: \<^verbatim>\<open>lambda frame: 50 + frame\<close> and, for runs small enough to
  evaluate, \<^verbatim>\<open>lambda frame: 3 + frame\<close>.
\<close>

definition fifty_plus_frame :: "int \<Rightarrow> pyval" where
  "fifty_plus_frame frame = PInt (50 + frame)"



text \<open>
  A photo of 6000 x 4000 pixels: the same collaborators, and the object that
  \<^verbatim>\<open>CoreAsciifier('photo.png', definition=100, correction=0.75,
  strict_out_dimensions=True)\<close> builds. Its ratio is the float \<^verbatim>\<open>4000 / 6000\<close>.
\<close>

definition photo_tools :: tools where
  "photo_tools = example_tools\<lparr>identify_dimensions := (\<lambda>p. Some (6000, 4000))\<rparr>"

definition photo_world :: world where
  "photo_world = \<lparr>fs = [[''photo.png''] \<mapsto> Image 6000 4000], ASCIIPIXELS_PROCESS = 0\<rparr>"

definition photo_core :: CoreAsciifier where
  "photo_core =
     \<lparr>path = [''photo.png''], is_video = False, frame_count = None, fps = None,
      dimensions = (6000, 4000), ratio = round64 (4000 / 6000), strict_out_dimensions = True,
      out_dimensions = (6000, 4000),
      bg = static_pd (PInt 30) True False, txt_pd = static_pd (PInt 255) True False,
      definition_pd = static_pd (PInt 100) False False,
      correction = static_pd (PFloat (3 / 4)) False False,
      chars = static_pd (PStr '' .:-=+*$@#'') False False,
      ascii_art = [], definition_height = None, text_size = None,
      process_dir = [''asciipixels'']\<rparr>"

section \<open>Properties of the resolver\<close>

lemma seq_get_upto_map:
  assumes "1 \<le> f" "f \<le> n"
  shows "seq_get (map g [1..n]) (f - 1) = Inr (g f)"
proof -
  have len: "int (length [1..n]) = n" using assms by simp
  have "[1..n] ! nat (f - 1) = 1 + int (nat (f - 1))"
    using assms by (intro nth_upto) simp
  then have "[1..n] ! nat (f - 1) = f" using assms by simp
  then show ?thesis using assms len by (simp add: seq_get_def)
qed

lemma seq_get_upto_last:
  assumes "1 \<le> n"
  shows "seq_get (map g [1..n]) (-1) = Inr (g n)"
proof -
  have "[1..n] ! nat (n - 1) = 1 + int (nat (n - 1))"
    using assms by (intro nth_upto) simp
  then have "[1..n] ! nat (n - 1) = n" using assms by simp
  then show ?thesis using assms by (simp add: seq_get_def)
qed

lemma getitem_dynamic_in_range:
  assumes "1 \<le> f" "f \<le> n"
  shows "getitem \<lparr>is_dynamic = True, value_pd = PList (map g [1..n]),
                  color_type = ct, reverse = rv\<rparr> (Some f)
         = output_transforms ct rv (g f)"
  using assms by (simp add: getitem_def seq_get_upto_map)

text \<open>
  Claim C2. A parameter given as a function \<open>g\<close> with frame count \<open>n\<close> is evaluated at
  construction for every frame 1..n and the sequence is stored; a lookup with a frame
  \<open>f\<close> in [1, n] returns \<open>g f\<close> after the configured transforms (and \<open>g f\<close> itself when
  none is configured); a lookup without a frame raises the no-frame error.
\<close>

theorem dynamic_lookup_returns_function_value:
  "\<exists>pd. PossiblyDynamic_init (Func g) (Some n) ct rv = Inr pd
     \<and> value_pd pd = PList (map g [1..n])
     \<and> (\<forall>f. 1 \<le> f \<and> f \<le> n \<longrightarrow> getitem pd (Some f) = output_transforms ct rv (g f))
     \<and> (\<not> ct \<and> \<not> rv \<longrightarrow> (\<forall>f. 1 \<le> f \<and> f \<le> n \<longrightarrow> getitem pd (Some f) = Inr (g f)))
     \<and> getitem pd None
         = Inl (AsciifierException ''Frame was not specified for dynamic parameter.'')"
proof -
  let ?pd = "\<lparr>is_dynamic = True, value_pd = PList (map g [1..n]),
              color_type = ct, reverse = rv\<rparr>"
  have init: "PossiblyDynamic_init (Func g) (Some n) ct rv = Inr ?pd"
    by (simp add: PossiblyDynamic_init_def)
  have look: "\<forall>f. 1 \<le> f \<and> f \<le> n \<longrightarrow> getitem ?pd (Some f) = output_transforms ct rv (g f)"
    by (simp add: getitem_dynamic_in_range)
  have plain: "\<not> ct \<and> \<not> rv \<longrightarrow> (\<forall>f. 1 \<le> f \<and> f \<le> n \<longrightarrow> getitem ?pd (Some f) = Inr (g f))"
    using look by (auto simp add: output_transforms_def)
  have none: "getitem ?pd None
      = Inl (AsciifierException ''Frame was not specified for dynamic parameter.'')"
    by (simp add: getitem_def no_frame_error_def)
  show ?thesis using init look plain none by simp
qed

theorem dynamic_lookup_returns_function_value_witness:
  "\<exists>pd. PossiblyDynamic_init (Func (\<lambda>i. PInt (50 + i))) (Some 3) False False = Inr pd
     \<and> value_pd pd = PList [PInt 51, PInt 52, PInt 53]
     \<and> getitem pd (Some 2) = Inr (PInt 52)
     \<and> getitem pd None
         = Inl (AsciifierException ''Frame was not specified for dynamic parameter.'')"
proof -
  have u: "[1..3::int] = [1, 2, 3]" by code_simp
  show ?thesis
    using dynamic_lookup_returns_function_value [of "\<lambda>i. PInt (50 + i)" 3 False False] u
    by auto
qed

text \<open>
  Claim C6. A static parameter \<open>p\<close> is stored as it is, and a lookup returns the same for
  every frame index, absent or not: \<open>p\<close> itself when no transform is configured; for a
  color-typed resolver an integer expanded to three equal values and every other value
  (an explicit tuple of three, a string, a float, \<^verbatim>\<open>None\<close>) unchanged; for a
  reversal-enabled resolver the string, tuple or list reversed (the ramp AB gives BA),
  the color expansion of an integer coming first. A value that has no reversal
  (\<^verbatim>\<open>None\<close>, a number) makes the reversal itself raise TypeError.
\<close>

theorem static_lookup_returns_value:
  "PossiblyDynamic_init (Value p) fc ct rv = Inr (static_pd p ct rv)
   \<and> getitem (static_pd p False False) f = Inr p
   \<and> getitem (static_pd (PInt i) True rv) f = Inr (PTuple [PInt i, PInt i, PInt i])
   \<and> getitem (static_pd PNone True False) f = Inr PNone
   \<and> getitem (static_pd (PFloat r) True False) f = Inr (PFloat r)
   \<and> getitem (static_pd (PStr s) True False) f = Inr (PStr s)
   \<and> getitem (static_pd (PTuple xs) True False) f = Inr (PTuple xs)
   \<and> getitem (static_pd (PList xs) True False) f = Inr (PList xs)
   \<and> getitem (static_pd (PStr s) ct True) f = Inr (PStr (rev s))
   \<and> getitem (static_pd (PTuple xs) ct True) f = Inr (PTuple (rev xs))
   \<and> getitem (static_pd (PList xs) ct True) f = Inr (PList (rev xs))
   \<and> getitem (static_pd (PStr ''AB'') False True) f = Inr (PStr ''BA'')
   \<and> getitem (static_pd (PInt i) False True) f = Inl TypeError
   \<and> getitem (static_pd (PFloat r) ct True) f = Inl TypeError
   \<and> getitem (static_pd PNone ct True) f = Inl TypeError"
  by (simp add: PossiblyDynamic_init_def static_pd_def getitem_def output_transforms_def)

text \<open>
  Claim C10. For a function-backed resolver with frame count \<open>n \<ge> 1\<close>, the lookup with
  frame 0 reads the stored sequence at index -1: it gives what the lookup with frame
  \<open>n\<close> gives, the value computed for frame \<open>n\<close>. No integer frame index ever gives the
  no-frame error; the absent frame index does.
\<close>

theorem frame_zero_wraps_to_last:
  assumes "1 \<le> n"
  shows "\<exists>pd. PossiblyDynamic_init (Func g) (Some n) ct rv = Inr pd
     \<and> getitem pd (Some 0) = output_transforms ct rv (g n)
     \<and> getitem pd (Some 0) = getitem pd (Some n)
     \<and> (\<not> ct \<and> \<not> rv \<longrightarrow> getitem pd (Some 0) = Inr (g n))
     \<and> (\<forall>f. getitem pd (Some f) \<noteq> Inl no_frame_error)
     \<and> getitem pd None = Inl no_frame_error"
proof -
  let ?pd = "\<lparr>is_dynamic = True, value_pd = PList (map g [1..n]),
              color_type = ct, reverse = rv\<rparr>"
  have init: "PossiblyDynamic_init (Func g) (Some n) ct rv = Inr ?pd"
    by (simp add: PossiblyDynamic_init_def)
  have zero: "getitem ?pd (Some 0) = output_transforms ct rv (g n)"
    using assms by (simp add: getitem_def seq_get_upto_last)
  have last: "getitem ?pd (Some n) = output_transforms ct rv (g n)"
    using assms by (simp add: getitem_dynamic_in_range)
  have plain: "\<not> ct \<and> \<not> rv \<longrightarrow> getitem ?pd (Some 0) = Inr (g n)"
    using zero by (auto simp add: output_transforms_def)
  have never: "getitem ?pd (Some f) \<noteq> Inl no_frame_error" for f
  proof -
    have tr: "output_transforms ct rv v \<noteq> Inl no_frame_error" for v
      by (cases v) (simp_all add: output_transforms_def no_frame_error_def)
    show ?thesis
      using tr by (simp add: getitem_def seq_get_def no_frame_error_def)
  qed
  have none: "getitem ?pd None = Inl no_frame_error"
    by (simp add: getitem_def)
  show ?thesis using init zero last plain never none by simp
qed

theorem frame_zero_wraps_to_last_witness:
  "(1::int) \<le> 3
   \<and> (\<exists>pd. PossiblyDynamic_init (Func (\<lambda>i. PInt (50 + i))) (Some 3) False False = Inr pd
        \<and> getitem pd (Some 0) = Inr (PInt 53)
        \<and> getitem pd None = Inl no_frame_error)"
proof -
  have h: "(1::int) \<le> 3" by simp
  show ?thesis
    using frame_zero_wraps_to_last [OF h, of "\<lambda>i. PInt (50 + i)" False False] by auto
qed

section \<open>Properties of the float arithmetic\<close>

text \<open>
  What the rounding of the model does: \<open>ilog2\<close> is the binary exponent, the rounded value
  keeps the sign and lies within half a unit in the last place of the exact one, a number
  below \<open>2^1023\<close> in magnitude stays finite, and a number with at most 53 significant bits
  is not changed. So integers below \<open>2^53\<close> and their halves are exact.
\<close>

lemma two_pow_powi: "two_pow k = 2 powi k"
  by (simp add: two_pow_def power_int_def power_one_over inverse_eq_divide)

lemma two_pow_pos: "0 < two_pow k"
  by (simp add: two_pow_powi)

lemma two_pow_add: "two_pow (a + b) = two_pow a * two_pow b"
  by (simp add: two_pow_powi power_int_add)

lemma two_pow_nat: "two_pow (int n) = 2 ^ n"
  by (simp add: two_pow_powi)

lemma two_pow_less: "two_pow a \<le> x \<Longrightarrow> x < two_pow b \<Longrightarrow> a < b"
proof (rule ccontr)
  assume h: "two_pow a \<le> x" "x < two_pow b" and n: "\<not> a < b"
  then have "b \<le> a" by simp
  then have "two_pow b \<le> two_pow a"
    by (simp add: two_pow_powi power_int_increasing)
  then show False using h by simp
qed

lemma bit_length_bounds:
  "0 < n \<Longrightarrow> 2 ^ (bit_length n - 1) \<le> n \<and> n < 2 ^ bit_length n"
proof (induction n rule: bit_length.induct)
  case (1 n)
  have bl: "bit_length n = Suc (bit_length (n div 2))"
    using "1.prems" by (simp add: bit_length.simps [of n])
  show ?case
  proof (cases "n div 2 \<le> 0")
    case True
    then have n1: "n = 1" using "1.prems" by presburger
    have "bit_length (n div 2) = 0" using True by (simp add: bit_length.simps [of "n div 2"])
    then show ?thesis using bl n1 by simp
  next
    case False
    then have pos: "0 < n div 2" by simp
    have IH: "2 ^ (bit_length (n div 2) - 1) \<le> n div 2 \<and> n div 2 < 2 ^ bit_length (n div 2)"
      using "1.IH" "1.prems" pos by simp
    have b1: "bit_length (n div 2) = Suc (bit_length (n div 2) - 1)"
      using pos by (simp add: bit_length.simps [of "n div 2"])
    have "(2::int) ^ bit_length (n div 2) = 2 * 2 ^ (bit_length (n div 2) - 1)"
      by (subst b1) simp
    then have lo: "(2::int) ^ bit_length (n div 2) \<le> n"
      using IH by presburger
    have hi: "n < 2 * 2 ^ bit_length (n div 2)"
      using IH by presburger
    show ?thesis using lo hi bl by simp
  qed
qed

lemma ilog2_le:
  assumes "0 < x"
  shows "two_pow (ilog2 x) \<le> x"
proof -
  obtain p q where pq: "quotient_of x = (p, q)" by (cases "quotient_of x")
  have q: "0 < q" using pq by (rule quotient_of_denom_pos)
  have x: "x = of_int p / of_int q" using pq by (rule quotient_of_div)
  have p: "0 < p" using assms q x by (simp add: zero_less_divide_iff)
  let ?g = "int (bit_length p) - int (bit_length q)"
  show ?thesis
  proof (cases "two_pow ?g \<le> x")
    case True
    then show ?thesis using pq by (simp add: ilog2_def)
  next
    case False
    then have il: "ilog2 x = ?g - 1" using pq by (simp add: ilog2_def)
    have bp: "1 \<le> bit_length p" using p by (simp add: bit_length.simps [of p])
    have e: "?g - 1 = int (bit_length p - 1) - int (bit_length q)" using bp by simp
    have "two_pow (?g - 1) = 2 ^ (bit_length p - 1) / 2 ^ bit_length q"
      unfolding e by (simp add: two_pow_powi power_int_diff)
    moreover have "(2::rat) ^ (bit_length p - 1) / 2 ^ bit_length q \<le> of_int p / of_int q"
    proof (rule frac_le)
      show "(0::rat) \<le> of_int p" using p by simp
      have "(2::int) ^ (bit_length p - 1) \<le> p" using bit_length_bounds [OF p] by simp
      then have "(of_int (2 ^ (bit_length p - 1)) :: rat) \<le> of_int p" by (simp only: of_int_le_iff)
      then show "(2::rat) ^ (bit_length p - 1) \<le> of_int p" by simp
      show "(0::rat) < of_int q" using q by simp
      have "q \<le> 2 ^ bit_length q" using bit_length_bounds [OF q] by simp
      then have "(of_int q :: rat) \<le> of_int (2 ^ bit_length q)" by (simp only: of_int_le_iff)
      then show "(of_int q :: rat) \<le> 2 ^ bit_length q" by simp
    qed
    ultimately show ?thesis using il x by simp
  qed
qed

lemma ilog2_less:
  assumes "0 < x"
  shows "x < two_pow (ilog2 x + 1)"
proof -
  obtain p q where pq: "quotient_of x = (p, q)" by (cases "quotient_of x")
  have q: "0 < q" using pq by (rule quotient_of_denom_pos)
  have x: "x = of_int p / of_int q" using pq by (rule quotient_of_div)
  have p: "0 < p" using assms q x by (simp add: zero_less_divide_iff)
  let ?g = "int (bit_length p) - int (bit_length q)"
  show ?thesis
  proof (cases "two_pow ?g \<le> x")
    case True
    then have il: "ilog2 x = ?g" using pq by (simp add: ilog2_def)
    have bq: "1 \<le> bit_length q" using q by (simp add: bit_length.simps [of q])
    have e: "?g + 1 = int (bit_length p) - int (bit_length q - 1)" using bq by simp
    have t: "two_pow (?g + 1) = 2 ^ bit_length p / 2 ^ (bit_length q - 1)"
      unfolding e by (simp add: two_pow_powi power_int_diff)
    have "(of_int p :: rat) / of_int q < 2 ^ bit_length p / 2 ^ (bit_length q - 1)"
    proof (rule frac_less)
      show "(0::rat) \<le> of_int p" using p by simp
      have "p < 2 ^ bit_length p" using bit_length_bounds [OF p] by simp
      then have "(of_int p :: rat) < of_int (2 ^ bit_length p)" by (simp only: of_int_less_iff)
      then show "(of_int p :: rat) < 2 ^ bit_length p" by simp
      show "(0::rat) < 2 ^ (bit_length q - 1)" by simp
      have "2 ^ (bit_length q - 1) \<le> q" using bit_length_bounds [OF q] by simp
      then have "(of_int (2 ^ (bit_length q - 1)) :: rat) \<le> of_int q" by (simp only: of_int_le_iff)
      then show "(2::rat) ^ (bit_length q - 1) \<le> of_int q" by simp
    qed
    then show ?thesis using il x t by simp
  next
    case False
    then have "ilog2 x = ?g - 1" using pq by (simp add: ilog2_def)
    then show ?thesis using False by simp
  qed
qed

lemma round_half_even_of_int: "round_half_even (of_int n) = n"
  by (simp add: round_half_even_def)

lemma round_half_even_nonneg: "0 \<le> x \<Longrightarrow> 0 \<le> round_half_even x"
  by (auto simp add: round_half_even_def Let_def)

lemma round_half_even_le_double:
  assumes "0 \<le> x"
  shows "of_int (round_half_even x) \<le> 2 * x"
proof -
  have f0: "0 \<le> \<lfloor>x\<rfloor>" using assms by simp
  then have f0': "(0::rat) \<le> of_int \<lfloor>x\<rfloor>" by simp
  have lo: "of_int \<lfloor>x\<rfloor> \<le> x" by simp
  show ?thesis
  proof (cases "x - of_int \<lfloor>x\<rfloor> < 1 / 2")
    case True
    then have "round_half_even x = \<lfloor>x\<rfloor>" by (simp add: round_half_even_def)
    then show ?thesis using lo assms by linarith
  next
    case False
    then have "of_int (round_half_even x) \<le> of_int \<lfloor>x\<rfloor> + (1::rat)"
      by (simp add: round_half_even_def Let_def)
    then show ?thesis using False f0' by linarith
  qed
qed

lemma round_half_even_error: "\<bar>of_int (round_half_even x) - x\<bar> \<le> 1 / 2"
proof -
  have lo: "of_int \<lfloor>x\<rfloor> \<le> x" and hi: "x < of_int \<lfloor>x\<rfloor> + 1" by linarith+
  consider "x - of_int \<lfloor>x\<rfloor> < 1 / 2" | "1 / 2 < x - of_int \<lfloor>x\<rfloor>" | "x - of_int \<lfloor>x\<rfloor> = 1 / 2"
    by linarith
  then show ?thesis
  proof cases
    case 1
    then have "round_half_even x = \<lfloor>x\<rfloor>" by (simp add: round_half_even_def)
    then show ?thesis using 1 lo by simp
  next
    case 2
    then have "round_half_even x = \<lfloor>x\<rfloor> + 1" by (simp add: round_half_even_def Let_def)
    then show ?thesis using 2 hi by simp
  next
    case 3
    then have "round_half_even x = \<lfloor>x\<rfloor> \<or> round_half_even x = \<lfloor>x\<rfloor> + 1"
      by (simp add: round_half_even_def Let_def)
    then show ?thesis using 3 by auto
  qed
qed

lemma round64_unfold:
  assumes "x \<noteq> 0"
      and "e = max (ilog2 \<bar>x\<bar>) (- 1022)"
      and "u = two_pow (e - 52)"
      and "n = round_half_even (\<bar>x\<bar> / u)"
  shows "round64 x =
     (if 1023 < e \<or> (e = 1023 \<and> n = 2 ^ 53) then Infinite (x < 0)
      else Finite (if x < 0 then - (of_int n * u) else of_int n * u))"
  unfolding assms(2-4) using assms(1) by (simp only: round64_def Let_def if_False)

lemma round64_sign:
  "(case round64 x of
      Finite y \<Rightarrow> (0 \<le> x \<longrightarrow> 0 \<le> y) \<and> (x \<le> 0 \<longrightarrow> y \<le> 0)
    | Infinite s \<Rightarrow> s = (x < 0)
    | NaN \<Rightarrow> False)"
proof (cases "x = 0")
  case True
  then show ?thesis by (simp add: round64_def)
next
  case False
  define e where "e = max (ilog2 \<bar>x\<bar>) (- 1022)"
  define u where "u = two_pow (e - 52)"
  define n where "n = round_half_even (\<bar>x\<bar> / u)"
  note R = round64_unfold [OF False e_def u_def n_def]
  have u: "0 < u" unfolding u_def by (rule two_pow_pos)
  then have "0 \<le> \<bar>x\<bar> / u" by simp
  then have "0 \<le> n" unfolding n_def by (rule round_half_even_nonneg)
  then have nn: "(0::rat) \<le> of_int n * u" using u by simp
  show ?thesis
  proof (cases "1023 < e \<or> (e = 1023 \<and> n = 2 ^ 53)")
    case True
    then have "round64 x = Infinite (x < 0)" by (simp only: R if_True)
    then show ?thesis by simp
  next
    case no: False
    then have "round64 x = Finite (if x < 0 then - (of_int n * u) else of_int n * u)"
      by (simp only: R if_False)
    then show ?thesis using nn False by auto
  qed
qed

lemma round64_error:
  assumes "round64 x = Finite y"
  shows "\<bar>y - x\<bar> \<le> two_pow (max (ilog2 \<bar>x\<bar>) (- 1022) - 52) / 2"
proof (cases "x = 0")
  case True
  then show ?thesis using assms two_pow_pos [of "max (ilog2 \<bar>x\<bar>) (- 1022) - 52"]
    by (simp add: round64_def less_imp_le)
next
  case False
  define e where "e = max (ilog2 \<bar>x\<bar>) (- 1022)"
  define u where "u = two_pow (e - 52)"
  define n where "n = round_half_even (\<bar>x\<bar> / u)"
  note R = round64_unfold [OF False e_def u_def n_def]
  have u: "0 < u" unfolding u_def by (rule two_pow_pos)
  have y: "y = (if x < 0 then - (of_int n * u) else of_int n * u)"
    using assms unfolding R by (simp split: if_splits)
  have "\<bar>of_int n - \<bar>x\<bar> / u\<bar> \<le> 1 / 2" unfolding n_def by (rule round_half_even_error)
  then have "\<bar>of_int n - \<bar>x\<bar> / u\<bar> * u \<le> 1 / 2 * u" using u by (simp only: mult_le_cancel_right_pos)
  moreover have "\<bar>of_int n - \<bar>x\<bar> / u\<bar> * u = \<bar>of_int n * u - \<bar>x\<bar>\<bar>"
  proof -
    have "\<bar>of_int n - \<bar>x\<bar> / u\<bar> * u = \<bar>(of_int n - \<bar>x\<bar> / u) * u\<bar>"
      using u by (simp add: abs_mult)
    also have "(of_int n - \<bar>x\<bar> / u) * u = of_int n * u - \<bar>x\<bar>"
      using u by (simp add: algebra_simps)
    finally show ?thesis .
  qed
  ultimately have h: "\<bar>of_int n * u - \<bar>x\<bar>\<bar> \<le> u / 2" by simp
  have "\<bar>y - x\<bar> \<le> u / 2"
  proof (cases "x < 0")
    case True
    then have "y = - (of_int n * u)" using y by simp
    then show ?thesis using h True by linarith
  next
    case False
    then have "y = of_int n * u" using y by simp
    then show ?thesis using h False by linarith
  qed
  then show ?thesis unfolding u_def e_def .
qed

lemma round64_bounded:
  assumes "\<bar>x\<bar> < 2 ^ 1023"
  shows "\<exists>y. round64 x = Finite y \<and> \<bar>y\<bar> \<le> 2 * \<bar>x\<bar>"
proof (cases "x = 0")
  case True
  then show ?thesis by (simp add: round64_def)
next
  case False
  define e where "e = max (ilog2 \<bar>x\<bar>) (- 1022)"
  define u where "u = two_pow (e - 52)"
  define n where "n = round_half_even (\<bar>x\<bar> / u)"
  note R = round64_unfold [OF False e_def u_def n_def]
  have a: "0 < \<bar>x\<bar>" using False by simp
  have u: "0 < u" unfolding u_def by (rule two_pow_pos)
  have "\<bar>x\<bar> < two_pow 1023" using assms by (simp add: two_pow_powi)
  then have "ilog2 \<bar>x\<bar> < 1023" using ilog2_le [OF a] by (rule two_pow_less [rotated])
  then have e: "e \<le> 1022" unfolding e_def by simp
  have q: "0 \<le> \<bar>x\<bar> / u" using u by simp
  have n0: "0 \<le> n" unfolding n_def using q by (rule round_half_even_nonneg)
  have "of_int n \<le> 2 * (\<bar>x\<bar> / u)" unfolding n_def using q by (rule round_half_even_le_double)
  then have "of_int n * u \<le> 2 * (\<bar>x\<bar> / u) * u" using u by (simp only: mult_le_cancel_right_pos)
  then have le: "of_int n * u \<le> 2 * \<bar>x\<bar>" using u by simp
  have nn: "(0::rat) \<le> of_int n * u" using n0 u by simp
  have no: "\<not> (1023 < e \<or> (e = 1023 \<and> n = 2 ^ 53))" using e by linarith
  have r: "round64 x = Finite (if x < 0 then - (of_int n * u) else of_int n * u)"
    using no by (simp only: R if_False)
  show ?thesis using r le nn by auto
qed

lemma round64_exact:
  assumes x: "x = of_int m * two_pow k"
      and m: "\<bar>m\<bar> < 2 ^ 53"
      and k: "- 1074 \<le> k" "k \<le> 970"
  shows "round64 x = Finite x"
proof (cases "x = 0")
  case True
  then show ?thesis by (simp add: round64_def)
next
  case False
  define a where "a = \<bar>x\<bar>"
  define e where "e = max (ilog2 \<bar>x\<bar>) (- 1022)"
  define u where "u = two_pow (e - 52)"
  define n where "n = round_half_even (\<bar>x\<bar> / u)"
  note R = round64_unfold [OF False e_def u_def n_def]
  have a: "0 < a" using False by (simp add: a_def)
  have u: "0 < u" unfolding u_def by (rule two_pow_pos)
  have am: "a = of_int \<bar>m\<bar> * two_pow k"
    unfolding a_def x using two_pow_pos [of k] by (simp add: abs_mult)
  have "(of_int \<bar>m\<bar> :: rat) < of_int (2 ^ 53)" using m by (simp only: of_int_less_iff)
  then have "(of_int \<bar>m\<bar> :: rat) < two_pow 53" by (simp add: two_pow_powi)
  then have "of_int \<bar>m\<bar> * two_pow k < two_pow 53 * two_pow k"
    using two_pow_pos [of k] by (simp only: mult_less_cancel_right_pos)
  then have "a < two_pow (53 + k)" unfolding am by (simp only: two_pow_add)
  then have il: "ilog2 a < 53 + k" using ilog2_le [OF a] by (rule two_pow_less [rotated])
  have e: "e \<le> k + 52"
    unfolding e_def a_def [symmetric]
  proof (rule max.boundedI)
    show "ilog2 a \<le> k + 52" using il by linarith
    show "- 1022 \<le> k + 52" using k by linarith
  qed
  have e2: "e \<le> 1022" using e k by linarith
  define j where "j = nat (k - (e - 52))"
  have kj: "k = int j + (e - 52)" using e unfolding j_def by linarith
  have "two_pow k = two_pow (int j) * u" unfolding u_def by (subst kj) (rule two_pow_add)
  then have tk: "two_pow k = 2 ^ j * u" by (simp only: two_pow_nat)
  have "a / u = of_int \<bar>m\<bar> * 2 ^ j" using u by (simp add: am tk)
  then have q: "a / u = of_int (\<bar>m\<bar> * 2 ^ j)" by simp
  have n: "n = \<bar>m\<bar> * 2 ^ j"
    unfolding n_def a_def [symmetric] q by (rule round_half_even_of_int)
  have nu: "of_int n * u = a" unfolding n by (simp add: am tk)
  have no: "\<not> (1023 < e \<or> (e = 1023 \<and> n = 2 ^ 53))" using e2 by linarith
  have r: "round64 x = Finite (if x < 0 then - (of_int n * u) else of_int n * u)"
    using no by (simp only: R if_False)
  show ?thesis unfolding r nu a_def by simp
qed


lemma trunc_nonneg: "0 \<le> x \<Longrightarrow> trunc x = \<lfloor>x\<rfloor>"
  by (simp add: trunc_def)

lemma trunc_nonpos: "x \<le> 0 \<Longrightarrow> trunc x = \<lceil>x\<rceil>"
  by (cases "x = 0") (simp_all add: trunc_def)

lemma trunc_le_zero: "x \<le> 0 \<Longrightarrow> trunc x \<le> 0"
  by (simp add: trunc_nonpos ceiling_le_zero)

lemma trunc_half:
  assumes "0 \<le> n"
  shows "trunc (of_int n / 2) = n div 2"
proof -
  have "\<lfloor>(of_int n :: rat) / of_int 2\<rfloor> = n div 2"
    by (simp only: floor_divide_of_int_eq)
  moreover have "0 \<le> (of_int n :: rat) / 2" using assms by simp
  ultimately show ?thesis by (simp add: trunc_def)
qed

lemma round_down_even:
  fixes n :: int
  shows "even (2 * (n div 2)) \<and> 2 * (n div 2) \<le> n \<and> n < 2 * (n div 2) + 2"
  by presburger

lemma float_of_int_exact:
  assumes "\<bar>n\<bar> < 2 ^ 53"
  shows "float_of_int n = Inr (Finite (of_int n))"
proof -
  have "round64 (of_int n) = Finite (of_int n)"
    by (rule round64_exact [where m = n and k = 0]) (use assms in \<open>simp_all add: two_pow_def\<close>)
  then show ?thesis by (simp add: float_of_int_def)
qed

lemma float_of_int_Inr:
  assumes "float_of_int n = Inr a"
  shows "\<exists>y. a = Finite y \<and> (0 \<le> n \<longrightarrow> 0 \<le> y) \<and> (n \<le> 0 \<longrightarrow> y \<le> 0)"
proof (cases "round64 (of_int n)")
  case (Finite y)
  have s: "(0 \<le> (of_int n :: rat) \<longrightarrow> 0 \<le> y) \<and> ((of_int n :: rat) \<le> 0 \<longrightarrow> y \<le> 0)"
    using round64_sign [of "of_int n"] unfolding Finite by simp
  have "a = Finite y" using assms unfolding float_of_int_def Finite by simp
  then show ?thesis using s by simp
next
  case (Infinite s)
  then show ?thesis using assms by (simp add: float_of_int_def)
next
  case NaN
  then show ?thesis using round64_sign [of "of_int n"] by simp
qed

lemma even_size_exact:
  assumes "0 \<le> n" "n < 2 ^ 53"
  shows "even_size n = Inr (2 * (n div 2))"
proof -
  have a: "float_of_int n = Inr (Finite (of_int n))"
    by (rule float_of_int_exact) (use assms in simp)
  have "round64 (of_int n * (1 / 2)) = Finite (of_int n * (1 / 2))"
    by (rule round64_exact [where m = n and k = "- 1"]) (use assms in \<open>simp_all add: two_pow_def\<close>)
  then have "fmul (Finite (of_int n)) (Finite (1 / 2)) = Finite (of_int n / 2)" by simp
  then show ?thesis using a assms by (simp add: even_size_def int_of_product_def trunc_half)
qed

lemma one_point_seven_value:
  "one_point_seven = Finite (7656119366529843 / 4503599627370496)"
  by code_simp

section \<open>Properties of the geometry\<close>

lemma float_of_int_Inl: "float_of_int n = Inl e \<Longrightarrow> e = OverflowError"
  by (cases "round64 (of_int n)") (simp_all add: float_of_int_def)

lemma as_float_Inl: "as_float v = Inl e \<Longrightarrow> e = OverflowError \<or> e = TypeError"
  by (cases v) (auto dest: float_of_int_Inl)

lemma fdiv_Inl: "fdiv x y = Inl e \<Longrightarrow> e = ZeroDivisionError"
  by (cases x; cases y) (auto split: if_splits)

lemma py_ceil_Inl: "py_ceil x = Inl e \<Longrightarrow> e = OverflowError \<or> e = ValueError"
  by (cases x) auto

lemma py_int_Inl: "py_int x = Inl e \<Longrightarrow> e = OverflowError \<or> e = ValueError"
  by (cases x) auto

lemma text_size_of_Inl:
  assumes "text_size_of ow v = Inl e"
  shows "e = OverflowError \<or> e = TypeError \<or> e = ZeroDivisionError \<or> e = ValueError"
  using assms unfolding text_size_of_def
  by (auto split: sum.splits dest: float_of_int_Inl as_float_Inl fdiv_Inl py_ceil_Inl)

lemma definition_height_of_Inl:
  assumes "definition_height_of v r c = Inl e"
  shows "e = OverflowError \<or> e = TypeError \<or> e = ValueError"
  using assms unfolding definition_height_of_def
  by (auto split: sum.splits dest: as_float_Inl py_int_Inl)

lemma text_size_of_Inr:
  assumes "text_size_of ow (PInt d) = Inr ts"
  shows "\<exists>a dd q. float_of_int ow = Inr a \<and> float_of_int d = Inr dd
           \<and> fdiv (fmul a one_point_seven) dd = Inr (Finite q) \<and> ts = \<lceil>q\<rceil>"
proof -
  from assms obtain a dd x where
    a: "float_of_int ow = Inr a" and dd: "float_of_int d = Inr dd" and
    x: "fdiv (fmul a one_point_seven) dd = Inr x" and c: "py_ceil x = Inr ts"
    unfolding text_size_of_def by (auto split: sum.splits)
  from c obtain q where "x = Finite q" "ts = \<lceil>q\<rceil>" by (cases x) auto
  then show ?thesis using a dd x by blast
qed

lemma definition_height_of_Inr:
  assumes "definition_height_of (PInt d) r c = Inr dh"
  shows "\<exists>dd p. float_of_int d = Inr dd \<and> fmul (fmul dd r) c = Finite p \<and> dh = trunc p"
proof -
  from assms obtain dd where
    dd: "float_of_int d = Inr dd" and c: "py_int (fmul (fmul dd r) c) = Inr dh"
    unfolding definition_height_of_def by (auto split: sum.splits)
  from c obtain p where "fmul (fmul dd r) c = Finite p" "dh = trunc p"
    by (cases "fmul (fmul dd r) c") auto
  then show ?thesis using dd by blast
qed

lemma find_correction_cases:
  assumes "find_correction T (PInt d) corr0 ts ow = Inr c"
  shows "(corr0 \<noteq> PNone \<longrightarrow> as_float corr0 = Inr c)
       \<and> (corr0 = PNone \<longrightarrow>
            (\<exists>w tw th. int_of_product ow (Finite (3 / 2)) = Inr w
               \<and> Magick_text_dimensions T d d ts w (ow * 2) = Inr (tw, th)
               \<and> int_truediv tw th = Inr c))"
  using assms
  by (cases corr0) (auto simp add: find_correction_def split: sum.splits)

lemma figure_out_sizes_Inr:
  assumes "figure_out_sizes T self frame fine_tune even_sizes = Inr self'"
  shows "\<exists>definition0 correction0 ts c dh.
      getitem (definition_pd self) frame = Inr definition0
    \<and> getitem (correction self) frame = Inr correction0
    \<and> text_size_of (fst (out_dimensions self)) definition0 = Inr ts
    \<and> find_correction T definition0 correction0 ts (fst (out_dimensions self)) = Inr c
    \<and> definition_height_of definition0 (ratio self) c = Inr dh
    \<and> text_size self' = Some ts
    \<and> definition_height self' = Some dh
    \<and> (strict_out_dimensions self \<or> \<not> fine_tune \<longrightarrow>
         self' = self\<lparr>text_size := Some ts, definition_height := Some dh\<rparr>)
    \<and> (\<not> strict_out_dimensions self \<and> fine_tune \<longrightarrow>
         (\<exists>cols w tw th. definition0 = PInt cols
            \<and> int_of_product (fst (out_dimensions self)) (Finite (3 / 2)) = Inr w
            \<and> Magick_text_dimensions T cols dh ts w (snd (out_dimensions self) * 2) = Inr (tw, th)
            \<and> (even_sizes \<longrightarrow>
                 (\<exists>ew eh. even_size tw = Inr ew \<and> even_size th = Inr eh
                    \<and> out_dimensions self' = (ew, eh)))
            \<and> (\<not> even_sizes \<longrightarrow> out_dimensions self' = (tw, th))))"
  using assms
  unfolding figure_out_sizes_def Let_def
  by (auto split: sum.splits if_splits pyval.splits prod.splits)

lemma figure_out_sizes_coarse:
  assumes "figure_out_sizes T self frame False even_sizes = Inr self'"
  shows "\<exists>ts dh. self' = self\<lparr>text_size := Some ts, definition_height := Some dh\<rparr>"
  using figure_out_sizes_Inr [OF assms] by auto

lemma fmul_bounded:
  assumes "\<bar>a\<bar> \<le> A" "\<bar>b\<bar> \<le> B" "A * B < 2 ^ 1023"
  shows "\<exists>y. fmul (Finite a) (Finite b) = Finite y \<and> \<bar>y\<bar> \<le> 2 * (A * B)"
proof -
  have "\<bar>a\<bar> * \<bar>b\<bar> \<le> A * B"
    using assms(1,2) by (intro mult_mono) simp_all
  then have ab: "\<bar>a * b\<bar> \<le> A * B" by (simp add: abs_mult)
  then have "\<bar>a * b\<bar> < 2 ^ 1023" using assms(3) by (rule le_less_trans)
  from round64_bounded [OF this] obtain y where
    "round64 (a * b) = Finite y" "\<bar>y\<bar> \<le> 2 * \<bar>a * b\<bar>" by blast
  then show ?thesis using ab by auto
qed

lemma text_size_of_returns:
  assumes ow: "\<bar>ow\<bar> < 2 ^ 53" and d: "d \<noteq> 0" "\<bar>d\<bar> < 2 ^ 53"
  shows "\<exists>ts. text_size_of ow (PInt d) = Inr ts"
proof -
  have a: "float_of_int ow = Inr (Finite (of_int ow))" by (rule float_of_int_exact [OF ow])
  have dd: "float_of_int d = Inr (Finite (of_int d))" by (rule float_of_int_exact [OF d(2)])
  have "(of_int \<bar>ow\<bar> :: rat) \<le> of_int (2 ^ 53)" using ow by (simp only: of_int_le_iff)
  then have b1: "\<bar>of_int ow :: rat\<bar> \<le> 2 ^ 53" by simp
  have b2: "\<bar>7656119366529843 / 4503599627370496 :: rat\<bar> \<le> 2" by simp
  have b3: "(2 ^ 53 * 2 :: rat) < 2 ^ 1023" by simp
  from fmul_bounded [OF b1 b2 b3] obtain y where
    y: "fmul (Finite (of_int ow)) (Finite (7656119366529843 / 4503599627370496)) = Finite y"
    and yb: "\<bar>y\<bar> \<le> 2 * (2 ^ 53 * 2)" by blast
  have "(1::int) \<le> \<bar>d\<bar>" using d(1) by simp
  then have "(of_int 1 :: rat) \<le> of_int \<bar>d\<bar>" by (simp only: of_int_le_iff)
  then have d1: "1 \<le> \<bar>of_int d :: rat\<bar>" by simp
  have "\<bar>y\<bar> / \<bar>of_int d :: rat\<bar> \<le> \<bar>y\<bar> / 1"
    by (rule divide_left_mono) (use d1 in simp_all)
  then have "\<bar>y / of_int d\<bar> \<le> \<bar>y\<bar>" by simp
  then have "\<bar>y / of_int d\<bar> \<le> 2 * (2 ^ 53 * 2)" using yb by simp
  moreover have "(2 * (2 ^ 53 * 2) :: rat) < 2 ^ 1023" by simp
  ultimately have "\<bar>y / of_int d\<bar> < 2 ^ 1023" by (rule le_less_trans)
  from round64_bounded [OF this] obtain q where q: "round64 (y / of_int d) = Finite q" by blast
  have dn: "(of_int d :: rat) \<noteq> 0" using d(1) by simp
  have "text_size_of ow (PInt d) = Inr \<lceil>q\<rceil>"
    using dn by (simp add: text_size_of_def a dd one_point_seven_value y q del: fmul.simps)
  then show ?thesis by blast
qed

lemma definition_height_of_returns:
  assumes d: "\<bar>d\<bar> < 2 ^ 53" and r: "\<bar>r\<bar> \<le> 2 ^ 64" and c: "\<bar>c\<bar> \<le> 2 ^ 64"
  shows "\<exists>dh. definition_height_of (PInt d) (Finite r) (round64 c) = Inr dh"
proof -
  have dd: "float_of_int d = Inr (Finite (of_int d))" by (rule float_of_int_exact [OF d])
  have "(of_int \<bar>d\<bar> :: rat) \<le> of_int (2 ^ 53)" using d by (simp only: of_int_le_iff)
  then have b1: "\<bar>of_int d :: rat\<bar> \<le> 2 ^ 53" by simp
  have b3: "(2 ^ 53 * 2 ^ 64 :: rat) < 2 ^ 1023" by simp
  from fmul_bounded [OF b1 r b3] obtain y where
    y: "fmul (Finite (of_int d)) (Finite r) = Finite y"
    and yb: "\<bar>y\<bar> \<le> 2 * (2 ^ 53 * 2 ^ 64)" by blast
  have "\<bar>c\<bar> < 2 ^ 1023" using c by (rule le_less_trans) simp
  from round64_bounded [OF this] obtain c' where
    c': "round64 c = Finite c'" and cb: "\<bar>c'\<bar> \<le> 2 * \<bar>c\<bar>" by blast
  have cb2: "\<bar>c'\<bar> \<le> 2 * 2 ^ 64" using cb c by simp
  have b4: "(2 * (2 ^ 53 * 2 ^ 64) * (2 * 2 ^ 64) :: rat) < 2 ^ 1023" by simp
  from fmul_bounded [OF yb cb2 b4] obtain p where
    p: "fmul (Finite y) (Finite c') = Finite p" by blast
  have "definition_height_of (PInt d) (Finite r) (round64 c) = Inr (trunc p)"
    by (simp add: definition_height_of_def dd y c' p del: fmul.simps)
  then show ?thesis by blast
qed

lemma definition_height_of_nonpos:
  assumes run: "definition_height_of (PInt d) (Finite r) (round64 c) = Inr dh"
      and d: "0 < d" and r: "0 \<le> r" and c: "c \<le> 0"
  shows "dh \<le> 0"
proof -
  from definition_height_of_Inr [OF run] obtain dd p where
    dd: "float_of_int d = Inr dd" and
    p: "fmul (fmul dd (Finite r)) (round64 c) = Finite p" and dh: "dh = trunc p"
    by blast
  from float_of_int_Inr [OF dd] d obtain y where y: "dd = Finite y" "0 \<le> y" by auto
  have yr: "0 \<le> y * r" using y(2) r by simp
  have cc: "\<exists>c'. round64 c = Finite c' \<and> c' \<le> 0"
  proof (cases "round64 c")
    case (Finite c')
    then show ?thesis using round64_sign [of c] c by simp
  next
    case (Infinite s)
    have "fmul (fmul dd (Finite r)) (Infinite s) \<noteq> Finite p"
      by (cases "fmul dd (Finite r)") simp_all
    then show ?thesis using p Infinite by simp
  next
    case NaN
    then show ?thesis using round64_sign [of c] by simp
  qed
  then obtain c' where c': "round64 c = Finite c'" "c' \<le> 0" by blast
  have "\<exists>y2. round64 (y * r) = Finite y2 \<and> 0 \<le> y2"
  proof (cases "round64 (y * r)")
    case (Finite y2)
    then show ?thesis using round64_sign [of "y * r"] yr by simp
  next
    case (Infinite s)
    then show ?thesis using p y(1) c'(1) by (simp split: if_splits)
  next
    case NaN
    then show ?thesis using round64_sign [of "y * r"] by simp
  qed
  then obtain y2 where y2: "round64 (y * r) = Finite y2" "0 \<le> y2" by blast
  have "round64 (y2 * c') = Finite p" using p y(1) y2(1) c'(1) by simp
  moreover have "y2 * c' \<le> 0" using y2(2) c'(2) by (simp add: mult_nonneg_nonpos)
  ultimately have "p \<le> 0" using round64_sign [of "y2 * c'"] by simp
  then show ?thesis unfolding dh by (rule trunc_le_zero)
qed

text \<open>
  Claim C5 gives the definition height as the floor of definition * source aspect ratio *
  correction. The code computes \<^verbatim>\<open>int(definition * self.ratio * correction)\<close> in float
  arithmetic. On a 6000 x 4000 photo with definition 100 and correction 0.75 the exact
  product is 50, and the code gives 49: the ratio is the float below 2/3 and each product
  is rounded. With the correction -0.51 on the 800 x 600 image and definition 80 the
  product is -30.6, whose floor is -31, and the code gives -30, since \<^verbatim>\<open>int\<close>
  truncates toward zero.
\<close>

theorem definition_height_floor_counterexample:
  "fst (CoreAsciifier_init photo_tools [''photo.png''] (Value (PInt 30)) (Value (PInt 255))
          (Value (PInt 100)) NoWidth True (Value (PFloat (3 / 4)))
          (Value (PStr '' .:-=+*$@#'')) False None None photo_world) = Inr photo_core
   \<and> map_sum id definition_height (figure_out_sizes photo_tools photo_core None True False)
       = Inr (Some 49)
   \<and> \<lfloor>(100 :: rat) * (4000 / 6000) * (3 / 4)\<rfloor> = 50
   \<and> map_sum id definition_height
         (figure_out_sizes example_tools
            (example_core (static_pd (PInt 80) False False)
               (static_pd (PFloat (- (51 / 100))) False False) True None)
            None True False)
       = Inr (Some (- 30))
   \<and> \<lfloor>(80 :: rat) * (600 / 800) * (- (51 / 100))\<rfloor> = - 31"
  by code_simp

text \<open>
  Claim C5, amended. When \<^verbatim>\<open>figure_out_sizes\<close> returns, for an integer definition \<open>d\<close>,
  all arithmetic being binary64 with every operation rounded to nearest: the text point
  size is the ceiling of the float quotient \<^verbatim>\<open>(out_width * 1.7) / d\<close>; the definition
  height is the float product \<^verbatim>\<open>(d * ratio) * correction\<close> truncated toward zero, which is
  its floor when it is not negative and its ceiling when it is not positive, the
  correction being the number given or, for \<^verbatim>\<open>None\<close>, the float quotient of the measured
  width and height of a d x d block; integers below \<open>2^53\<close> enter the arithmetic unchanged;
  and when even sizes are asked for and fine-tuning applies, each axis of the output
  canvas is the measured text size (from 0 to below \<open>2^53\<close>) rounded down to the nearest
  even number.
\<close>

theorem figure_out_sizes_formulas:
  assumes ret: "figure_out_sizes T self frame fine_tune even_sizes = Inr self'"
      and dfn: "getitem (definition_pd self) frame = Inr (PInt d)"
  shows "\<exists>a dd q corr0 c p.
       float_of_int (fst (out_dimensions self)) = Inr a
     \<and> float_of_int d = Inr dd
     \<and> (\<bar>fst (out_dimensions self)\<bar> < 2 ^ 53 \<longrightarrow> a = Finite (of_int (fst (out_dimensions self))))
     \<and> (\<bar>d\<bar> < 2 ^ 53 \<longrightarrow> dd = Finite (of_int d))
     \<and> fdiv (fmul a one_point_seven) dd = Inr (Finite q)
     \<and> text_size self' = Some \<lceil>q\<rceil>
     \<and> getitem (correction self) frame = Inr corr0
     \<and> (corr0 \<noteq> PNone \<longrightarrow> as_float corr0 = Inr c)
     \<and> (corr0 = PNone \<longrightarrow>
          (\<exists>w tw th. int_of_product (fst (out_dimensions self)) (Finite (3 / 2)) = Inr w
             \<and> Magick_text_dimensions T d d \<lceil>q\<rceil> w (fst (out_dimensions self) * 2) = Inr (tw, th)
             \<and> int_truediv tw th = Inr c))
     \<and> fmul (fmul dd (ratio self)) c = Finite p
     \<and> definition_height self' = Some (trunc p)
     \<and> (0 \<le> p \<longrightarrow> definition_height self' = Some \<lfloor>p\<rfloor>)
     \<and> (p \<le> 0 \<longrightarrow> definition_height self' = Some \<lceil>p\<rceil>)
     \<and> (even_sizes \<and> fine_tune \<and> \<not> strict_out_dimensions self \<longrightarrow>
          (\<exists>w tw th. int_of_product (fst (out_dimensions self)) (Finite (3 / 2)) = Inr w
             \<and> Magick_text_dimensions T d (trunc p) \<lceil>q\<rceil> w (snd (out_dimensions self) * 2)
                 = Inr (tw, th)
             \<and> (0 \<le> tw \<and> tw < 2 ^ 53 \<and> 0 \<le> th \<and> th < 2 ^ 53 \<longrightarrow>
                  out_dimensions self' = (2 * (tw div 2), 2 * (th div 2))
                \<and> even (fst (out_dimensions self')) \<and> even (snd (out_dimensions self'))
                \<and> fst (out_dimensions self') \<le> tw \<and> tw < fst (out_dimensions self') + 2
                \<and> snd (out_dimensions self') \<le> th \<and> th < snd (out_dimensions self') + 2)))"
proof -
  let ?ow = "fst (out_dimensions self)"
  from figure_out_sizes_Inr [OF ret] obtain definition0 correction0 ts c dh where
    g1: "getitem (definition_pd self) frame = Inr definition0" and
    g2: "getitem (correction self) frame = Inr correction0" and
    tso: "text_size_of ?ow definition0 = Inr ts" and
    fc: "find_correction T definition0 correction0 ts ?ow = Inr c" and
    dho: "definition_height_of definition0 (ratio self) c = Inr dh" and
    ts: "text_size self' = Some ts" and
    dh: "definition_height self' = Some dh" and
    fine: "\<not> strict_out_dimensions self \<and> fine_tune \<longrightarrow>
         (\<exists>cols w tw th. definition0 = PInt cols
            \<and> int_of_product ?ow (Finite (3 / 2)) = Inr w
            \<and> Magick_text_dimensions T cols dh ts w (snd (out_dimensions self) * 2) = Inr (tw, th)
            \<and> (even_sizes \<longrightarrow>
                 (\<exists>ew eh. even_size tw = Inr ew \<and> even_size th = Inr eh
                    \<and> out_dimensions self' = (ew, eh)))
            \<and> (\<not> even_sizes \<longrightarrow> out_dimensions self' = (tw, th)))"
    by blast
  have d0: "definition0 = PInt d" using g1 dfn by simp
  from text_size_of_Inr [OF tso [unfolded d0]] obtain a dd q where
    a: "float_of_int ?ow = Inr a" and dd: "float_of_int d = Inr dd" and
    q: "fdiv (fmul a one_point_seven) dd = Inr (Finite q)" and tsq: "ts = \<lceil>q\<rceil>"
    by blast
  from definition_height_of_Inr [OF dho [unfolded d0]] dd obtain p where
    p: "fmul (fmul dd (ratio self)) c = Finite p" and dhp: "dh = trunc p"
    by auto
  have ax: "\<bar>?ow\<bar> < 2 ^ 53 \<longrightarrow> a = Finite (of_int ?ow)"
    using a float_of_int_exact [of ?ow] by auto
  have dx: "\<bar>d\<bar> < 2 ^ 53 \<longrightarrow> dd = Finite (of_int d)"
    using dd float_of_int_exact [of d] by auto
  have A: "text_size self' = Some \<lceil>q\<rceil>" using ts tsq by simp
  have B: "(correction0 \<noteq> PNone \<longrightarrow> as_float correction0 = Inr c)
       \<and> (correction0 = PNone \<longrightarrow>
            (\<exists>w tw th. int_of_product ?ow (Finite (3 / 2)) = Inr w
               \<and> Magick_text_dimensions T d d \<lceil>q\<rceil> w (?ow * 2) = Inr (tw, th)
               \<and> int_truediv tw th = Inr c))"
    using find_correction_cases [of T d correction0 ts ?ow c] fc d0 tsq by simp
  have C: "definition_height self' = Some (trunc p)" using dh dhp by simp
  have D1: "0 \<le> p \<longrightarrow> definition_height self' = Some \<lfloor>p\<rfloor>"
    using C by (simp add: trunc_nonneg)
  have D2: "p \<le> 0 \<longrightarrow> definition_height self' = Some \<lceil>p\<rceil>"
    using C by (simp add: trunc_nonpos)
  have E: "even_sizes \<and> fine_tune \<and> \<not> strict_out_dimensions self \<longrightarrow>
          (\<exists>w tw th. int_of_product ?ow (Finite (3 / 2)) = Inr w
             \<and> Magick_text_dimensions T d (trunc p) \<lceil>q\<rceil> w (snd (out_dimensions self) * 2)
                 = Inr (tw, th)
             \<and> (0 \<le> tw \<and> tw < 2 ^ 53 \<and> 0 \<le> th \<and> th < 2 ^ 53 \<longrightarrow>
                  out_dimensions self' = (2 * (tw div 2), 2 * (th div 2))
                \<and> even (fst (out_dimensions self')) \<and> even (snd (out_dimensions self'))
                \<and> fst (out_dimensions self') \<le> tw \<and> tw < fst (out_dimensions self') + 2
                \<and> snd (out_dimensions self') \<le> th \<and> th < snd (out_dimensions self') + 2))"
  proof (intro impI)
    assume ev: "even_sizes \<and> fine_tune \<and> \<not> strict_out_dimensions self"
    with fine d0 tsq dhp obtain w tw th ew eh where
      w: "int_of_product ?ow (Finite (3 / 2)) = Inr w" and
      m: "Magick_text_dimensions T d (trunc p) \<lceil>q\<rceil> w (snd (out_dimensions self) * 2)
            = Inr (tw, th)" and
      ew: "even_size tw = Inr ew" and eh: "even_size th = Inr eh" and
      od: "out_dimensions self' = (ew, eh)"
      by auto
    have R: "0 \<le> tw \<and> tw < 2 ^ 53 \<and> 0 \<le> th \<and> th < 2 ^ 53 \<longrightarrow>
                  out_dimensions self' = (2 * (tw div 2), 2 * (th div 2))
                \<and> even (fst (out_dimensions self')) \<and> even (snd (out_dimensions self'))
                \<and> fst (out_dimensions self') \<le> tw \<and> tw < fst (out_dimensions self') + 2
                \<and> snd (out_dimensions self') \<le> th \<and> th < snd (out_dimensions self') + 2"
    proof (intro impI)
      assume nn: "0 \<le> tw \<and> tw < 2 ^ 53 \<and> 0 \<le> th \<and> th < 2 ^ 53"
      have "even_size tw = Inr (2 * (tw div 2))" using nn by (intro even_size_exact) simp_all
      then have e1: "ew = 2 * (tw div 2)" using ew by simp
      have "even_size th = Inr (2 * (th div 2))" using nn by (intro even_size_exact) simp_all
      then have e2: "eh = 2 * (th div 2)" using eh by simp
      have od2: "out_dimensions self' = (2 * (tw div 2), 2 * (th div 2))"
        using od e1 e2 by simp
      show "out_dimensions self' = (2 * (tw div 2), 2 * (th div 2))
                \<and> even (fst (out_dimensions self')) \<and> even (snd (out_dimensions self'))
                \<and> fst (out_dimensions self') \<le> tw \<and> tw < fst (out_dimensions self') + 2
                \<and> snd (out_dimensions self') \<le> th \<and> th < snd (out_dimensions self') + 2"
        using od2 round_down_even [of tw] round_down_even [of th] by simp
    qed
    show "\<exists>w tw th. int_of_product ?ow (Finite (3 / 2)) = Inr w
             \<and> Magick_text_dimensions T d (trunc p) \<lceil>q\<rceil> w (snd (out_dimensions self) * 2)
                 = Inr (tw, th)
             \<and> (0 \<le> tw \<and> tw < 2 ^ 53 \<and> 0 \<le> th \<and> th < 2 ^ 53 \<longrightarrow>
                  out_dimensions self' = (2 * (tw div 2), 2 * (th div 2))
                \<and> even (fst (out_dimensions self')) \<and> even (snd (out_dimensions self'))
                \<and> fst (out_dimensions self') \<le> tw \<and> tw < fst (out_dimensions self') + 2
                \<and> snd (out_dimensions self') \<le> th \<and> th < snd (out_dimensions self') + 2)"
      using w m R by blast
  qed
  show ?thesis
    apply (rule exI [of _ a], rule exI [of _ dd], rule exI [of _ q])
    apply (rule exI [of _ correction0], rule exI [of _ c], rule exI [of _ p])
    apply (intro conjI)
    apply (rule a, rule dd, rule ax, rule dx, rule q, rule A, rule g2)
    apply (rule B [THEN conjunct1], rule B [THEN conjunct2])
    apply (rule p, rule C, rule D1, rule D2, rule E)
    done
qed

theorem figure_out_sizes_formulas_witness:
  "figure_out_sizes example_tools
     (example_core (static_pd (PInt 80) False False) (static_pd (PFloat (1 / 2)) False False) False None)
     None True True
   = Inr ((example_core (static_pd (PInt 80) False False) (static_pd (PFloat (1 / 2)) False False) False None)
           \<lparr>text_size := Some 17, definition_height := Some 30, out_dimensions := (680, 510)\<rparr>)
   \<and> getitem (definition_pd (example_core (static_pd (PInt 80) False False)
                 (static_pd (PFloat (1 / 2)) False False) False None)) None = Inr (PInt 80)
   \<and> (\<exists>q p. fdiv (fmul (Finite 800) one_point_seven) (Finite 80) = Inr (Finite q)
          \<and> \<lceil>q\<rceil> = 17
          \<and> fmul (fmul (Finite 80) (Finite (3 / 4))) (Finite (1 / 2)) = Finite p
          \<and> \<lfloor>p\<rfloor> = 30)"
proof -
  let ?C = "example_core (static_pd (PInt 80) False False)
              (static_pd (PFloat (1 / 2)) False False) False None"
  let ?C' = "?C\<lparr>text_size := Some 17, definition_height := Some 30, out_dimensions := (680, 510)\<rparr>"
  have h1: "figure_out_sizes example_tools ?C None True True = Inr ?C'" by code_simp
  have h2: "getitem (definition_pd ?C) None = Inr (PInt 80)" by code_simp
  have od: "fst (out_dimensions ?C) = 800" "ratio ?C = Finite (3 / 4)"
    by (simp_all add: example_core_def)
  have ts: "text_size ?C' = Some 17" "definition_height ?C' = Some 30" by simp_all
  have corr: "getitem (correction ?C) None = Inr (PFloat (1 / 2))" by code_simp
  have half: "as_float (PFloat (1 / 2)) = Inr (Finite (1 / 2))" by code_simp
  have small: "\<bar>800 :: int\<bar> < 2 ^ 53" "\<bar>80 :: int\<bar> < 2 ^ 53" by simp_all
  from figure_out_sizes_formulas [OF h1 h2] obtain a dd q corr0 c p where
    a: "\<bar>fst (out_dimensions ?C)\<bar> < 2 ^ 53 \<longrightarrow> a = Finite (of_int (fst (out_dimensions ?C)))" and
    dd: "\<bar>80 :: int\<bar> < 2 ^ 53 \<longrightarrow> dd = Finite (of_int 80)" and
    q: "fdiv (fmul a one_point_seven) dd = Inr (Finite q)" and
    t: "text_size ?C' = Some \<lceil>q\<rceil>" and
    g: "getitem (correction ?C) None = Inr corr0" and
    n: "corr0 \<noteq> PNone \<longrightarrow> as_float corr0 = Inr c" and
    p: "fmul (fmul dd (ratio ?C)) c = Finite p" and
    f: "0 \<le> p \<longrightarrow> definition_height ?C' = Some \<lfloor>p\<rfloor>" and
    tr: "definition_height ?C' = Some (trunc p)"
    by blast
  have a': "a = Finite 800" using a od small by simp
  have dd': "dd = Finite 80" using dd small by simp
  have c: "c = Finite (1 / 2)" using g n corr half by auto
  have q17: "\<lceil>q\<rceil> = 17" using t ts by simp
  have "trunc p = 30" using tr ts by simp
  then have "0 \<le> p" by (cases "0 \<le> p") (simp_all add: trunc_def ceiling_eq_iff)
  then have p30: "\<lfloor>p\<rfloor> = 30" using f ts by simp
  have "fdiv (fmul (Finite 800) one_point_seven) (Finite 80) = Inr (Finite q)
          \<and> \<lceil>q\<rceil> = 17
          \<and> fmul (fmul (Finite 80) (Finite (3 / 4))) (Finite (1 / 2)) = Finite p
          \<and> \<lfloor>p\<rfloor> = 30"
    using q p a' dd' c od q17 p30 by simp
  then show ?thesis using h1 h2 by blast
qed

text \<open>
  Claim C7 says that a correction factor \<open>\<le> 0\<close> raises a configuration error. It does
  not: with correction -0.5 the constructor returns the object, and
  \<^verbatim>\<open>figure_out_sizes\<close> returns a definition height of -30.
\<close>

theorem nonpositive_correction_counterexample:
  "fst (CoreAsciifier_init example_tools [''foo.png''] (Value (PInt 30)) (Value (PInt 255))
          (Value (PInt 80)) NoWidth True (Value (PFloat (- (1 / 2))))
          (Value (PStr '' .:-=+*$@#'')) False None None example_world)
     = Inr (example_core (static_pd (PInt 80) False False)
              (static_pd (PFloat (- (1 / 2))) False False) True None)
   \<and> figure_out_sizes example_tools
         (example_core (static_pd (PInt 80) False False)
            (static_pd (PFloat (- (1 / 2))) False False) True None)
         None True False
     = Inr ((example_core (static_pd (PInt 80) False False)
               (static_pd (PFloat (- (1 / 2))) False False) True None)
             \<lparr>text_size := Some 17, definition_height := Some (- 30)\<rparr>)"
  by code_simp

text \<open>
  Claim C7, amended. A correction factor given by the user is not validated, whatever its
  sign: the resolver stores it, and \<^verbatim>\<open>figure_out_sizes\<close> (with strict output dimensions
  or without fine-tuning, so that nothing is measured) does exactly the float arithmetic
  of lines 168 and 178. It never raises a configuration error; for an output width and a
  non-zero definition below \<open>2^53\<close> and a ratio and a correction up to \<open>2^64\<close> in
  magnitude, where no float operation overflows, it returns normally; and whenever it
  returns, the definition height \<^verbatim>\<open>int(d * ratio * correction)\<close> is \<open>\<le> 0\<close> for a
  correction \<open>\<le> 0\<close>.
\<close>

theorem correction_is_not_validated:
  assumes dfn: "getitem (definition_pd self) frame = Inr (PInt d)"
      and cor: "getitem (correction self) frame = Inr (PFloat c)"
      and coarse: "strict_out_dimensions self \<or> \<not> fine_tune"
  shows "PossiblyDynamic_init (Value (PFloat c)) fc False False
           = Inr (static_pd (PFloat c) False False)
       \<and> figure_out_sizes T self frame fine_tune even_sizes
           = (case text_size_of (fst (out_dimensions self)) (PInt d) of
                Inl e \<Rightarrow> Inl e
              | Inr ts \<Rightarrow>
                  (case definition_height_of (PInt d) (ratio self) (round64 c) of
                     Inl e \<Rightarrow> Inl e
                   | Inr dh \<Rightarrow> Inr (self\<lparr>text_size := Some ts, definition_height := Some dh\<rparr>)))
       \<and> (\<forall>msg. figure_out_sizes T self frame fine_tune even_sizes \<noteq> Inl (AsciifierException msg))
       \<and> (\<forall>r. \<bar>fst (out_dimensions self)\<bar> < 2 ^ 53 \<and> d \<noteq> 0 \<and> \<bar>d\<bar> < 2 ^ 53
              \<and> ratio self = Finite r \<and> \<bar>r\<bar> \<le> 2 ^ 64 \<and> \<bar>c\<bar> \<le> 2 ^ 64 \<longrightarrow>
            (\<exists>ts dh. figure_out_sizes T self frame fine_tune even_sizes
                        = Inr (self\<lparr>text_size := Some ts, definition_height := Some dh\<rparr>)))
       \<and> (\<forall>r self'. c \<le> 0 \<and> 0 < d \<and> ratio self = Finite r \<and> 0 \<le> r
              \<and> figure_out_sizes T self frame fine_tune even_sizes = Inr self' \<longrightarrow>
            (\<exists>dh. definition_height self' = Some dh \<and> dh \<le> 0))"
proof -
  let ?F = "figure_out_sizes T self frame fine_tune even_sizes"
  let ?ts = "text_size_of (fst (out_dimensions self)) (PInt d)"
  let ?dh = "definition_height_of (PInt d) (ratio self) (round64 c)"
  have A: "PossiblyDynamic_init (Value (PFloat c)) fc False False
           = Inr (static_pd (PFloat c) False False)"
    by (simp add: PossiblyDynamic_init_def static_pd_def)
  have B: "?F = (case ?ts of
                Inl e \<Rightarrow> Inl e
              | Inr ts \<Rightarrow>
                  (case ?dh of
                     Inl e \<Rightarrow> Inl e
                   | Inr dh \<Rightarrow> Inr (self\<lparr>text_size := Some ts, definition_height := Some dh\<rparr>)))"
    using dfn cor coarse
    by (auto simp add: figure_out_sizes_def find_correction_def Let_def split: sum.splits)
  have C: "?F \<noteq> Inl (AsciifierException msg)" for msg
  proof
    assume bad: "?F = Inl (AsciifierException msg)"
    show False
    proof (cases ?ts)
      case (Inl e)
      then have "e = AsciifierException msg" using bad B by simp
      then show False using text_size_of_Inl [OF Inl] by simp
    next
      case ts: (Inr ts)
      show False
      proof (cases ?dh)
        case (Inl e)
        then have "e = AsciifierException msg" using bad B ts by simp
        then show False using definition_height_of_Inl [OF Inl] by simp
      next
        case (Inr dh)
        then show False using bad B ts by simp
      qed
    qed
  qed
  have D: "\<exists>ts dh. ?F = Inr (self\<lparr>text_size := Some ts, definition_height := Some dh\<rparr>)"
    if h: "\<bar>fst (out_dimensions self)\<bar> < 2 ^ 53 \<and> d \<noteq> 0 \<and> \<bar>d\<bar> < 2 ^ 53
              \<and> ratio self = Finite r \<and> \<bar>r\<bar> \<le> 2 ^ 64 \<and> \<bar>c\<bar> \<le> 2 ^ 64" for r
  proof -
    obtain ts where ts: "?ts = Inr ts"
      using text_size_of_returns [of "fst (out_dimensions self)" d] h by blast
    obtain dh where dh: "?dh = Inr dh"
      using definition_height_of_returns [of d r c] h by auto
    have "?F = Inr (self\<lparr>text_size := Some ts, definition_height := Some dh\<rparr>)"
      using B ts dh by simp
    then show ?thesis by blast
  qed
  have E: "\<exists>dh. definition_height self' = Some dh \<and> dh \<le> 0"
    if h: "c \<le> 0 \<and> 0 < d \<and> ratio self = Finite r \<and> 0 \<le> r \<and> ?F = Inr self'" for r self'
  proof -
    from h B obtain ts dh where
      ts: "?ts = Inr ts" and dh: "?dh = Inr dh" and
      s: "self' = self\<lparr>text_size := Some ts, definition_height := Some dh\<rparr>"
      by (auto split: sum.splits)
    have run: "definition_height_of (PInt d) (Finite r) (round64 c) = Inr dh" using dh h by simp
    have hd: "0 < d" and hr: "0 \<le> r" and hc: "c \<le> 0" using h by simp_all
    have "dh \<le> 0" by (rule definition_height_of_nonpos [OF run hd hr hc])
    then show ?thesis using s by simp
  qed
  show ?thesis
    apply (intro conjI allI impI)
    apply (rule A, rule B, rule C)
    apply (erule D, erule E)
    done
qed

theorem correction_is_not_validated_witness:
  "getitem (definition_pd (example_core (static_pd (PInt 80) False False)
              (static_pd (PFloat (- (1 / 2))) False False) True None)) None = Inr (PInt 80)
   \<and> getitem (correction (example_core (static_pd (PInt 80) False False)
              (static_pd (PFloat (- (1 / 2))) False False) True None)) None
       = Inr (PFloat (- (1 / 2)))
   \<and> figure_out_sizes example_tools
         (example_core (static_pd (PInt 80) False False)
            (static_pd (PFloat (- (1 / 2))) False False) True None)
         None True False
       = Inr ((example_core (static_pd (PInt 80) False False)
                 (static_pd (PFloat (- (1 / 2))) False False) True None)
               \<lparr>text_size := Some 17, definition_height := Some (- 30)\<rparr>)
   \<and> text_size_of 800 (PInt 80) = Inr 17
   \<and> definition_height_of (PInt 80) (Finite (3 / 4)) (round64 (- (1 / 2))) = Inr (- 30)"
proof -
  let ?C = "example_core (static_pd (PInt 80) False False)
              (static_pd (PFloat (- (1 / 2))) False False) True None"
  have h1: "getitem (definition_pd ?C) None = Inr (PInt 80)" by code_simp
  have h3: "getitem (correction ?C) None = Inr (PFloat (- (1 / 2)))" by code_simp
  have h4: "strict_out_dimensions ?C \<or> \<not> True" by (simp add: example_core_def)
  have od: "fst (out_dimensions ?C) = 800" "ratio ?C = Finite (3 / 4)"
    by (simp_all add: example_core_def)
  have t: "text_size_of 800 (PInt 80) = Inr 17" by code_simp
  have d: "definition_height_of (PInt 80) (Finite (3 / 4)) (round64 (- (1 / 2))) = Inr (- 30)"
    by code_simp
  have "figure_out_sizes example_tools ?C None True False
       = Inr (?C\<lparr>text_size := Some 17, definition_height := Some (- 30)\<rparr>)"
    using correction_is_not_validated [OF h1 h3 h4, of None example_tools False] od t d
    by simp
  then show ?thesis using h1 h3 t d by (intro conjI)
qed

section \<open>Properties of the text block\<close>

lemma ramp_index_in_range:
  assumes "cs \<noteq> []" "0 \<le> p" "p \<le> 255"
  shows "0 \<le> p * (int (length cs) - 1) div 255
       \<and> p * (int (length cs) - 1) div 255 < int (length cs)"
proof -
  let ?m = "int (length cs) - 1"
  have m: "0 \<le> ?m" using assms(1) by (cases cs) simp_all
  have lo: "0 \<le> p * ?m" using assms(2) m by simp
  have "p * ?m \<le> 255 * ?m" using assms(3) m by (rule mult_right_mono)
  then have "p * ?m div 255 \<le> 255 * ?m div 255" by (rule zdiv_mono1) simp
  then have hi: "p * ?m div 255 \<le> ?m" by simp
  have "0 \<le> p * ?m div 255" using lo by (simp add: pos_imp_zdiv_nonneg_iff)
  then show ?thesis using hi by simp
qed

lemma seq_get_ramp:
  assumes "cs \<noteq> []" "0 \<le> p" "p \<le> 255"
  shows "seq_get cs (p * (int (length cs) - 1) div 255)
         = Inr (cs ! nat (p * (int (length cs) - 1) div 255))"
  using ramp_index_in_range [OF assms] by (simp add: seq_get_def)

lemma ramp_char_in_ramp:
  assumes "cs \<noteq> []" "0 \<le> p" "p \<le> 255"
  shows "cs ! nat (p * (int (length cs) - 1) div 255) \<in> set cs"
  using ramp_index_in_range [OF assms] by (simp add: nat_less_iff)

lemma py_subscript_ramp:
  assumes "cs \<noteq> []" "0 \<le> p" "p \<le> 255"
  shows "py_subscript (PStr cs) (p * (int (length cs) - 1) div 255)
         = Inr (PStr [cs ! nat (p * (int (length cs) - 1) div 255)])"
  using seq_get_ramp [OF assms] by simp

lemma ascii_loop_step:
  assumes "py_subscript (PStr cs) (pixel * (int (length cs) - 1) div 255) = Inr (PStr [c])"
      and "d \<noteq> 0"
  shows "ascii_loop (PStr cs) d k (pixel # rest) resp
         = ascii_loop (PStr cs) d (k + 1) rest
             (if k mod d = 0 then resp @ [c] @ [CHR 0x0A] else resp @ [c])"
  using assms by simp

lemma ascii_loop_row_part:
  assumes "0 < d" "cs \<noteq> []"
      and "\<forall>p \<in> set row. 0 \<le> p \<and> p \<le> 255"
      and "\<forall>j < length row. (k + int j) mod d \<noteq> 0"
  shows "ascii_loop (PStr cs) d k (row @ rest) resp
         = ascii_loop (PStr cs) d (k + int (length row)) rest
             (resp @ map (\<lambda>p. cs ! nat (p * (int (length cs) - 1) div 255)) row)"
  using assms(3,4)
proof (induction row arbitrary: k resp)
  case Nil
  then show ?case by simp
next
  case (Cons p row)
  let ?c = "cs ! nat (p * (int (length cs) - 1) div 255)"
  have pr: "0 \<le> p" "p \<le> 255" using Cons.prems(1) by simp_all
  have k0: "k mod d \<noteq> 0"
    using Cons.prems(2) [rule_format, of 0] by simp
  have rest: "\<forall>j < length row. (k + 1 + int j) mod d \<noteq> 0"
  proof (intro allI impI)
    fix j assume "j < length row"
    then have "Suc j < length (p # row)" by simp
    then have "(k + int (Suc j)) mod d \<noteq> 0"
      by (rule Cons.prems(2) [rule_format])
    moreover have "k + int (Suc j) = k + 1 + int j" by simp
    ultimately show "(k + 1 + int j) mod d \<noteq> 0" by metis
  qed
  have valid: "\<forall>q \<in> set row. 0 \<le> q \<and> q \<le> 255" using Cons.prems(1) by simp
  have dnz: "d \<noteq> 0" using assms(1) by simp
  have "ascii_loop (PStr cs) d k (p # (row @ rest)) resp
        = ascii_loop (PStr cs) d (k + 1) (row @ rest)
            (if k mod d = 0 then resp @ [?c] @ [CHR 0x0A] else resp @ [?c])"
    by (rule ascii_loop_step [OF py_subscript_ramp [OF assms(2) pr] dnz])
  also have "\<dots> = ascii_loop (PStr cs) d (k + 1) (row @ rest) (resp @ [?c])"
    using k0 by (simp only: if_False)
  also have "\<dots> = ascii_loop (PStr cs) d (k + 1 + int (length row)) rest
            ((resp @ [?c]) @ map (\<lambda>p. cs ! nat (p * (int (length cs) - 1) div 255)) row)"
    by (rule Cons.IH [OF valid rest])
  finally have E: "ascii_loop (PStr cs) d k (p # (row @ rest)) resp
        = ascii_loop (PStr cs) d (k + 1 + int (length row)) rest
            ((resp @ [?c]) @ map (\<lambda>p. cs ! nat (p * (int (length cs) - 1) div 255)) row)" .
  have K: "k + 1 + int (length row) = k + int (length (p # row))" by simp
  have R: "(resp @ [?c]) @ map (\<lambda>p. cs ! nat (p * (int (length cs) - 1) div 255)) row
           = resp @ map (\<lambda>p. cs ! nat (p * (int (length cs) - 1) div 255)) (p # row)"
    by simp
  have A: "(p # row) @ rest = p # (row @ rest)" by simp
  show ?case unfolding A using E K R by (simp only:)
qed

lemma ascii_loop_row:
  assumes d: "0 < d" and cs: "cs \<noteq> []"
      and len: "length row = nat d"
      and valid: "\<forall>p \<in> set row. 0 \<le> p \<and> p \<le> 255"
      and k: "(k - 1) mod d = 0"
  shows "ascii_loop (PStr cs) d k (row @ rest) resp
         = ascii_loop (PStr cs) d (k + d) rest
             (resp @ map (\<lambda>p. cs ! nat (p * (int (length cs) - 1) div 255)) row @ [CHR 0x0A])"
proof -
  let ?cf = "\<lambda>p. cs ! nat (p * (int (length cs) - 1) div 255)"
  have ne: "row \<noteq> []" using len d by auto
  then obtain front q where row: "row = front @ [q]"
    by (metis append_butlast_last_id)
  have lf: "int (length front) = d - 1" using len row d by simp
  have vf: "\<forall>p \<in> set front. 0 \<le> p \<and> p \<le> 255" using valid row by simp
  have vq: "0 \<le> q" "q \<le> 255" using valid row by simp_all
  have nohit: "\<forall>j < length front. (k + int j) mod d \<noteq> 0"
  proof (intro allI impI)
    fix j assume j: "j < length front"
    have "(k + int j) mod d = ((k - 1) + (int j + 1)) mod d" by simp
    also have "\<dots> = ((k - 1) mod d + (int j + 1)) mod d" by (simp add: mod_add_left_eq)
    also have "\<dots> = (int j + 1) mod d" using k by simp
    also have "\<dots> = int j + 1" using j lf by simp
    finally show "(k + int j) mod d \<noteq> 0" by simp
  qed
  have dnz: "d \<noteq> 0" using d by simp
  have hit: "(k + int (length front)) mod d = 0"
  proof -
    have e: "k + int (length front) = (k - 1) + d" using lf by simp
    show ?thesis unfolding e using k by simp
  qed
  have "ascii_loop (PStr cs) d k (row @ rest) resp
        = ascii_loop (PStr cs) d k (front @ (q # rest)) resp" using row by simp
  also have "\<dots> = ascii_loop (PStr cs) d (k + int (length front)) (q # rest) (resp @ map ?cf front)"
    by (rule ascii_loop_row_part [OF d cs vf nohit])
  also have "\<dots> = ascii_loop (PStr cs) d (k + int (length front) + 1) rest
                     ((resp @ map ?cf front) @ [?cf q] @ [CHR 0x0A])"
    using ascii_loop_step [OF py_subscript_ramp [OF cs vq] dnz,
            of "k + int (length front)" rest "resp @ map ?cf front"] hit
    by simp
  finally show ?thesis using row lf by simp
qed

lemma ascii_loop_rows:
  assumes d: "0 < d" and cs: "cs \<noteq> []"
      and rows: "\<forall>row \<in> set rows. length row = nat d \<and> (\<forall>p \<in> set row. 0 \<le> p \<and> p \<le> 255)"
      and k: "(k - 1) mod d = 0"
  shows "ascii_loop (PStr cs) d k (concat rows) resp
         = Inr (resp @ concat (map (\<lambda>row.
                  map (\<lambda>p. cs ! nat (p * (int (length cs) - 1) div 255)) row @ [CHR 0x0A]) rows))"
  using rows k
proof (induction rows arbitrary: k resp)
  case Nil
  then show ?case by simp
next
  case (Cons row rows)
  have len: "length row = nat d" and valid: "\<forall>p \<in> set row. 0 \<le> p \<and> p \<le> 255"
    using Cons.prems(1) by simp_all
  have more: "\<forall>row \<in> set rows. length row = nat d \<and> (\<forall>p \<in> set row. 0 \<le> p \<and> p \<le> 255)"
    using Cons.prems(1) by simp
  have k': "(k + d - 1) mod d = 0"
  proof -
    have "(k + d - 1) mod d = ((k - 1) + d) mod d" by (simp add: algebra_simps)
    also have "\<dots> = (k - 1) mod d" by simp
    finally show ?thesis using Cons.prems(2) by simp
  qed
  have "ascii_loop (PStr cs) d k (concat (row # rows)) resp
        = ascii_loop (PStr cs) d k (row @ concat rows) resp" by simp
  also have "\<dots> = ascii_loop (PStr cs) d (k + d) (concat rows)
             (resp @ map (\<lambda>p. cs ! nat (p * (int (length cs) - 1) div 255)) row @ [CHR 0x0A])"
    by (rule ascii_loop_row [OF d cs len valid Cons.prems(2)])
  also have "\<dots> = Inr ((resp @ map (\<lambda>p. cs ! nat (p * (int (length cs) - 1) div 255)) row
                            @ [CHR 0x0A])
              @ concat (map (\<lambda>row.
                  map (\<lambda>p. cs ! nat (p * (int (length cs) - 1) div 255)) row @ [CHR 0x0A]) rows))"
    by (rule Cons.IH [OF more k'])
  finally show ?case by simp
qed

lemma split_lines_line:
  assumes "CHR 0x0A \<notin> set l"
  shows "split_lines (l @ CHR 0x0A # rest) = l # split_lines rest"
  using assms by (induction l) auto

lemma split_lines_block:
  assumes "\<forall>l \<in> set ls. CHR 0x0A \<notin> set l"
  shows "split_lines (concat (map (\<lambda>l. l @ [CHR 0x0A]) ls)) = ls"
  using assms
proof (induction ls)
  case Nil
  then show ?case by simp
next
  case (Cons l ls)
  then show ?case using split_lines_line [of l] by simp
qed

text \<open>
  Claim C4. Let the resampled luminance grid be \<open>rows\<close>: \<open>definition_height\<close> rows of
  \<open>definition\<close> samples each, every sample in [0, 255], handed over in row-major order.
  Then \<^verbatim>\<open>generate_ascii_art\<close> returns the text in which every row is followed by a
  line break and the character of a sample \<open>p\<close> is \<open>ramp[p * (len(ramp) - 1) // 255]\<close>.
  When the ramp holds no line break itself, the text has exactly \<open>definition_height\<close>
  lines, each of exactly \<open>definition\<close> characters, all drawn from the ramp. The witness
  is the default ramp with definition 4 on a 4 x 4 grid.
\<close>

theorem generate_ascii_art_text_block:
  assumes dfn: "getitem (definition_pd self) frame = Inr (PInt d)"
      and rmp: "getitem (chars self) frame = Inr (PStr ramp)"
      and dh: "definition_height self = Some h"
      and frm: "\<not> (is_video self \<and> frame = None)"
      and data: "pil_getdata T (frame_source self frame) d h = Inr (concat rows)"
      and count: "int (length rows) = h"
      and grid: "\<forall>row \<in> set rows. length row = nat d \<and> (\<forall>p \<in> set row. 0 \<le> p \<and> p \<le> 255)"
      and pos: "0 < d"
      and ne: "ramp \<noteq> []"
  shows "\<exists>art. generate_ascii_art T self frame = Inr (art, self\<lparr>ascii_art := art\<rparr>)
     \<and> art = concat (map (\<lambda>row.
                 map (\<lambda>p. ramp ! nat (p * (int (length ramp) - 1) div 255)) row @ [CHR 0x0A]) rows)
     \<and> (CHR 0x0A \<notin> set ramp \<longrightarrow>
            split_lines art
              = map (map (\<lambda>p. ramp ! nat (p * (int (length ramp) - 1) div 255))) rows
          \<and> int (length (split_lines art)) = h
          \<and> (\<forall>l \<in> set (split_lines art). int (length l) = d \<and> set l \<subseteq> set ramp))"
proof -
  let ?cf = "\<lambda>p. ramp ! nat (p * (int (length ramp) - 1) div 255)"
  let ?art = "concat (map (\<lambda>row. map ?cf row @ [CHR 0x0A]) rows)"
  have k: "((1::int) - 1) mod d = 0" by simp
  have loop: "ascii_loop (PStr ramp) d 1 (concat rows) [] = Inr ([] @ ?art)"
    by (rule ascii_loop_rows [OF pos ne grid k])
  have run: "generate_ascii_art T self frame = Inr (?art, self\<lparr>ascii_art := ?art\<rparr>)"
    using dfn rmp dh frm data loop by (simp add: generate_ascii_art_def)
  have lines: "CHR 0x0A \<notin> set ramp \<longrightarrow>
            split_lines ?art = map (map ?cf) rows
          \<and> int (length (split_lines ?art)) = h
          \<and> (\<forall>l \<in> set (split_lines ?art). int (length l) = d \<and> set l \<subseteq> set ramp)"
  proof (intro impI)
    assume nl: "CHR 0x0A \<notin> set ramp"
    have inramp: "\<forall>row \<in> set rows. set (map ?cf row) \<subseteq> set ramp"
    proof (intro ballI subsetI)
      fix row c assume row: "row \<in> set rows" and c: "c \<in> set (map ?cf row)"
      then obtain p where p: "p \<in> set row" "c = ?cf p" by auto
      then have "0 \<le> p" "p \<le> 255" using grid row by auto
      then show "c \<in> set ramp" using ramp_char_in_ramp [OF ne] p by simp
    qed
    have nonl: "\<forall>l \<in> set (map (map ?cf) rows). CHR 0x0A \<notin> set l"
      using inramp nl by auto
    have shape: "?art = concat (map (\<lambda>l. l @ [CHR 0x0A]) (map (map ?cf) rows))"
      by (simp add: comp_def)
    have sl: "split_lines ?art = map (map ?cf) rows"
      unfolding shape by (rule split_lines_block [OF nonl])
    have len: "\<forall>l \<in> set (map (map ?cf) rows). int (length l) = d \<and> set l \<subseteq> set ramp"
      using grid inramp pos by auto
    have a: "int (length (split_lines ?art)) = h"
      unfolding sl using count by simp
    have b: "\<forall>l \<in> set (split_lines ?art). int (length l) = d \<and> set l \<subseteq> set ramp"
      unfolding sl by (rule len)
    show "split_lines ?art = map (map ?cf) rows
          \<and> int (length (split_lines ?art)) = h
          \<and> (\<forall>l \<in> set (split_lines ?art). int (length l) = d \<and> set l \<subseteq> set ramp)"
      by (rule conjI [OF sl conjI [OF a b]])
  qed
  show ?thesis
  proof (intro exI [of _ ?art] conjI)
    show "generate_ascii_art T self frame = Inr (?art, self\<lparr>ascii_art := ?art\<rparr>)"
      by (rule run)
    show "?art = ?art" by (rule refl)
    show "CHR 0x0A \<notin> set ramp \<longrightarrow>
            split_lines ?art = map (map ?cf) rows
          \<and> int (length (split_lines ?art)) = h
          \<and> (\<forall>l \<in> set (split_lines ?art). int (length l) = d \<and> set l \<subseteq> set ramp)"
      by (rule lines)
  qed
qed

theorem generate_ascii_art_text_block_witness:
  "\<exists>art. generate_ascii_art example_tools
            ((example_core (static_pd (PInt 4) False False) (static_pd PNone False False)
                False None)\<lparr>definition_height := Some 4\<rparr>) None
          = Inr (art,
                 (example_core (static_pd (PInt 4) False False) (static_pd PNone False False)
                    False None)\<lparr>definition_height := Some 4, ascii_art := art\<rparr>)
      \<and> split_lines art = ['' .:-'', ''+*$ '', ''.:=+'', ''*$ .'']
      \<and> int (length (split_lines art)) = 4
      \<and> (\<forall>l \<in> set (split_lines art). int (length l) = 4 \<and> set l \<subseteq> set '' .:-=+*$@#'')"
proof -
  let ?C = "(example_core (static_pd (PInt 4) False False) (static_pd PNone False False)
                False None)\<lparr>definition_height := Some 4\<rparr>"
  let ?rows = "[[0, 37, 74, 111], [148, 185, 222, 3], [40, 77, 114, 151], [188, 225, 6, 43 :: int]]"
  have h1: "getitem (definition_pd ?C) None = Inr (PInt 4)" by code_simp
  have h2: "getitem (chars ?C) None = Inr (PStr '' .:-=+*$@#'')" by code_simp
  have h3: "definition_height ?C = Some 4" by simp
  have h4: "\<not> (is_video ?C \<and> (None :: int option) = None)" by (simp add: example_core_def)
  have h5: "pil_getdata example_tools (frame_source ?C None) 4 4 = Inr (concat ?rows)"
    by code_simp
  have h6: "int (length ?rows) = 4" by simp
  have h7: "\<forall>row \<in> set ?rows. length row = nat 4 \<and> (\<forall>p \<in> set row. 0 \<le> p \<and> p \<le> 255)"
    by simp
  have h8: "(0::int) < 4" by simp
  have h9: "'' .:-=+*$@#'' \<noteq> []" by simp
  have nl: "CHR 0x0A \<notin> set '' .:-=+*$@#''" by simp
  have ev: "map (map (\<lambda>p. '' .:-=+*$@#'' ! nat (p * (int (length '' .:-=+*$@#'') - 1) div 255)))
              ?rows = ['' .:-'', ''+*$ '', ''.:=+'', ''*$ .'']"
    by code_simp
  from generate_ascii_art_text_block [OF h1 h2 h3 h4 h5 h6 h7 h8 h9] obtain art where
    r: "generate_ascii_art example_tools ?C None = Inr (art, ?C\<lparr>ascii_art := art\<rparr>)" and
    l: "CHR 0x0A \<notin> set '' .:-=+*$@#'' \<longrightarrow>
          split_lines art
            = map (map (\<lambda>p. '' .:-=+*$@#'' ! nat (p * (int (length '' .:-=+*$@#'') - 1) div 255)))
                ?rows
        \<and> int (length (split_lines art)) = 4
        \<and> (\<forall>l \<in> set (split_lines art). int (length l) = 4 \<and> set l \<subseteq> set '' .:-=+*$@#'')"
    by blast
  have "split_lines art
          = map (map (\<lambda>p. '' .:-=+*$@#'' ! nat (p * (int (length '' .:-=+*$@#'') - 1) div 255)))
              ?rows"
    using l nl by blast
  then have sl: "split_lines art = ['' .:-'', ''+*$ '', ''.:=+'', ''*$ .'']"
    using ev by (simp only:)
  have rest: "int (length (split_lines art)) = 4
        \<and> (\<forall>l \<in> set (split_lines art). int (length l) = 4 \<and> set l \<subseteq> set '' .:-=+*$@#'')"
    using l nl by blast
  show ?thesis
    by (rule exI [of _ art]) (rule conjI [OF r conjI [OF sl rest]])
qed

section \<open>Properties of the workers\<close>

lemma generate_ascii_art_Inr:
  assumes "generate_ascii_art T self frame = Inr (art, self')"
  shows "self' = self\<lparr>ascii_art := art\<rparr>"
  using assms unfolding generate_ascii_art_def Let_def
  by (auto split: sum.splits option.splits if_splits pyval.splits prod.splits)

lemma draw_ascii_art_frame:
  assumes "draw_ascii_art T self (Some f) gravity w = (Inr p, w')" "f \<noteq> 0"
  shows "p = process_dir self @ [''NewFrames'', ''frame'' @ str_int f @ ''.png'']
       \<and> (\<exists>cw ch. fs w (process_dir self @ [''canvas.png'']) = Some (Image cw ch)
             \<and> w' = w\<lparr>fs := (fs w)(p \<mapsto> Image cw ch)\<rparr>)"
  using assms unfolding draw_ascii_art_def Magick_text_overlay_def Let_def
  by (auto split: sum.splits option.splits if_splits fs_entry.splits prod.splits)

lemma draw_ascii_art_error:
  assumes "draw_ascii_art T self frame gravity w = (Inl e, w')"
  shows "w' = w"
  using assms unfolding draw_ascii_art_def Magick_text_overlay_def Let_def
  by (auto split: sum.splits option.splits if_splits fs_entry.splits prod.splits)

lemma dynamic_single_frame_Inr:
  assumes "dynamic_single_frame T f core w = (Inr core', w')" "f \<noteq> 0"
  shows "out_dimensions core' = out_dimensions core
       \<and> (\<exists>cw ch. fs w (process_dir core @ [''canvas.png'']) = Some (Image cw ch)
             \<and> w' = w\<lparr>fs := (fs w)(process_dir core @ [''NewFrames'', ''frame'' @ str_int f @ ''.png'']
                                    \<mapsto> Image cw ch)\<rparr>)"
proof -
  from assms(1) obtain core1 art core2 p where
    s1: "figure_out_sizes T core (Some f) False True = Inr core1" and
    s2: "generate_ascii_art T core1 (Some f) = Inr (art, core2)" and
    s3: "draw_ascii_art T core2 (Some f) ''Center'' w = (Inr p, w')" and
    s4: "core' = core2"
    unfolding dynamic_single_frame_def
    by (auto split: sum.splits prod.splits)
  from figure_out_sizes_coarse [OF s1] obtain ts dh where
    c1: "core1 = core\<lparr>text_size := Some ts, definition_height := Some dh\<rparr>" by blast
  have c2: "core2 = core1\<lparr>ascii_art := art\<rparr>" by (rule generate_ascii_art_Inr [OF s2])
  have pd: "process_dir core2 = process_dir core" "out_dimensions core2 = out_dimensions core"
    using c1 c2 by simp_all
  show ?thesis
    using draw_ascii_art_frame [OF s3 assms(2)] pd s4 by auto
qed

lemma dynamic_single_frame_Inl:
  assumes "dynamic_single_frame T f core w = (Inl e, w')"
  shows "w' = w"
  using assms unfolding dynamic_single_frame_def
  by (auto split: sum.splits prod.splits dest: draw_ascii_art_error)

lemma dynamic_single_frame_out_dimensions:
  assumes "dynamic_single_frame T f core w = (Inr core', w')"
  shows "out_dimensions core' = out_dimensions core"
proof -
  from assms obtain core1 art where
    s1: "figure_out_sizes T core (Some f) False True = Inr core1" and
    s2: "generate_ascii_art T core1 (Some f) = Inr (art, core')"
    unfolding dynamic_single_frame_def
    by (auto split: sum.splits prod.splits)
  from figure_out_sizes_coarse [OF s1] obtain ts dh where
    c1: "core1 = core\<lparr>text_size := Some ts, definition_height := Some dh\<rparr>" by blast
  have "core' = core1\<lparr>ascii_art := art\<rparr>" by (rule generate_ascii_art_Inr [OF s2])
  then show ?thesis using c1 by simp
qed

lemma asciify_single_frame_Inr:
  assumes "asciify_single_frame T f core w = (Inr core', w')" "f \<noteq> 0"
  shows "out_dimensions core' = out_dimensions core
       \<and> (\<exists>cw ch. fs w (process_dir core @ [''canvas.png'']) = Some (Image cw ch)
             \<and> w' = w\<lparr>fs := (fs w)(process_dir core @ [''NewFrames'', ''frame'' @ str_int f @ ''.png'']
                                    \<mapsto> Image cw ch)\<rparr>)"
proof -
  from assms(1) obtain art core1 p where
    s2: "generate_ascii_art T core (Some f) = Inr (art, core1)" and
    s3: "draw_ascii_art T core1 (Some f) ''Northwest'' w = (Inr p, w')" and
    s4: "core' = core1"
    unfolding asciify_single_frame_def
    by (auto split: sum.splits prod.splits)
  have c2: "core1 = core\<lparr>ascii_art := art\<rparr>" by (rule generate_ascii_art_Inr [OF s2])
  have pd: "process_dir core1 = process_dir core" "out_dimensions core1 = out_dimensions core"
    using c2 by simp_all
  show ?thesis
    using draw_ascii_art_frame [OF s3 assms(2)] pd s4 by auto
qed

lemma asciify_single_frame_Inl:
  assumes "asciify_single_frame T f core w = (Inl e, w')"
  shows "w' = w"
  using assms unfolding asciify_single_frame_def
  by (auto split: sum.splits prod.splits dest: draw_ascii_art_error)

lemma asciify_single_frame_out_dimensions:
  assumes "asciify_single_frame T f core w = (Inr core', w')"
  shows "out_dimensions core' = out_dimensions core"
proof -
  from assms obtain art where
    s2: "generate_ascii_art T core (Some f) = Inr (art, core')"
    unfolding asciify_single_frame_def
    by (auto split: sum.splits prod.splits)
  have "core' = core\<lparr>ascii_art := art\<rparr>" by (rule generate_ascii_art_Inr [OF s2])
  then show ?thesis by simp
qed

lemma first_raised_None:
  assumes "first_raised order rs = None" "i \<in> set order" "i < length rs"
  shows "\<not> isl (rs ! i)"
  using assms by (induction order) (auto split: if_splits sum.splits)

lemma run_pool_outcomes:
  assumes "run_pool T worker frames w = (r, w')"
  shows "\<exists>rs. run_tasks worker frames w = (rs, w') \<and> (r = Inr () \<longrightarrow> (\<forall>x \<in> set rs. \<not> isl x))"
proof -
  obtain rs w1 where t: "run_tasks worker frames w = (rs, w1)"
    by (cases "run_tasks worker frames w")
  let ?order = "as_completed T (length rs) @ [0..<length rs]"
  have w1: "w' = w1" using assms t by (auto simp add: run_pool_def split: option.splits)
  have "\<forall>x \<in> set rs. \<not> isl x" if ok: "r = Inr ()"
  proof
    fix x assume "x \<in> set rs"
    then obtain i where i: "i < length rs" "x = rs ! i" by (auto simp add: in_set_conv_nth)
    have none: "first_raised ?order rs = None"
      using assms t ok by (auto simp add: run_pool_def split: option.splits)
    have "i \<in> set ?order" using i(1) by simp
    then show "\<not> isl x" using first_raised_None [OF none] i by blast
  qed
  then show ?thesis using t w1 by blast
qed

lemma run_tasks_frames:
  assumes bad: "\<And>f w e w'. worker f w = (Inl e, w') \<Longrightarrow> w' = w"
      and good: "\<And>f w c w'. worker f w = (Inr c, w') \<Longrightarrow> f \<noteq> 0 \<Longrightarrow>
                  \<exists>cw ch. fs w (pd @ [''canvas.png'']) = Some (Image cw ch)
                    \<and> w' = w\<lparr>fs := (fs w)(pd @ [''NewFrames'', ''frame'' @ str_int f @ ''.png'']
                                          \<mapsto> Image cw ch)\<rparr>"
      and run: "run_tasks worker frames w = (rs, w')"
      and nz: "0 \<notin> set frames"
      and canvas: "fs w (pd @ [''canvas.png'']) = Some (Image cw ch)"
  shows "(\<forall>p. fs w p = Some (Image cw ch) \<longrightarrow> fs w' p = Some (Image cw ch))
       \<and> ((\<forall>x \<in> set rs. \<not> isl x) \<longrightarrow>
            (\<forall>f \<in> set frames.
               fs w' (pd @ [''NewFrames'', ''frame'' @ str_int f @ ''.png'']) = Some (Image cw ch)))"
  using run nz canvas
proof (induction frames arbitrary: w rs w')
  case Nil
  then show ?case by simp
next
  case (Cons f rest)
  obtain r1 w1 where step: "worker f w = (r1, w1)" by (cases "worker f w")
  obtain rt w2 where tail: "run_tasks worker rest w1 = (rt, w2)"
    by (cases "run_tasks worker rest w1")
  have w2: "w' = w2" and res: "rs = r1 # rt"
    using Cons.prems(1) step tail by auto
  have nz: "f \<noteq> 0" "0 \<notin> set rest" using Cons.prems(2) by auto
  have keep1: "\<forall>p. fs w p = Some (Image cw ch) \<longrightarrow> fs w1 p = Some (Image cw ch)"
  proof (cases r1)
    case (Inl e)
    then show ?thesis using bad step by blast
  next
    case (Inr c)
    then show ?thesis
      using good [of f w c w1] step nz(1) Cons.prems(3) by auto
  qed
  then have canvas1: "fs w1 (pd @ [''canvas.png'']) = Some (Image cw ch)"
    using Cons.prems(3) by blast
  note IH = Cons.IH [OF tail nz(2) canvas1]
  have keep: "\<forall>p. fs w p = Some (Image cw ch) \<longrightarrow> fs w' p = Some (Image cw ch)"
    using keep1 IH w2 by blast
  have frames: "(\<forall>x \<in> set rs. \<not> isl x) \<longrightarrow>
            (\<forall>g \<in> set (f # rest).
               fs w' (pd @ [''NewFrames'', ''frame'' @ str_int g @ ''.png'']) = Some (Image cw ch))"
  proof (intro impI)
    assume ok: "\<forall>x \<in> set rs. \<not> isl x"
    then obtain c where r1: "r1 = Inr c" and rt: "\<forall>x \<in> set rt. \<not> isl x"
      using res by (cases r1) auto
    have here: "fs w1 (pd @ [''NewFrames'', ''frame'' @ str_int f @ ''.png'']) = Some (Image cw ch)"
      using good [of f w c w1] step r1 nz(1) Cons.prems(3) by auto
    then have "fs w' (pd @ [''NewFrames'', ''frame'' @ str_int f @ ''.png'']) = Some (Image cw ch)"
      using IH w2 by blast
    then show "\<forall>g \<in> set (f # rest).
               fs w' (pd @ [''NewFrames'', ''frame'' @ str_int g @ ''.png'']) = Some (Image cw ch)"
      using IH rt w2 by auto
  qed
  show ?case using keep frames by blast
qed

lemma run_pool_frames:
  assumes bad: "\<And>f w e w'. worker f w = (Inl e, w') \<Longrightarrow> w' = w"
      and good: "\<And>f w c w'. worker f w = (Inr c, w') \<Longrightarrow> f \<noteq> 0 \<Longrightarrow>
                  \<exists>cw ch. fs w (pd @ [''canvas.png'']) = Some (Image cw ch)
                    \<and> w' = w\<lparr>fs := (fs w)(pd @ [''NewFrames'', ''frame'' @ str_int f @ ''.png'']
                                          \<mapsto> Image cw ch)\<rparr>"
      and run: "run_pool T worker frames w = (r, w')"
      and nz: "0 \<notin> set frames"
      and canvas: "fs w (pd @ [''canvas.png'']) = Some (Image cw ch)"
  shows "(\<forall>p. fs w p = Some (Image cw ch) \<longrightarrow> fs w' p = Some (Image cw ch))
       \<and> (r = Inr () \<longrightarrow>
            (\<forall>f \<in> set frames.
               fs w' (pd @ [''NewFrames'', ''frame'' @ str_int f @ ''.png'']) = Some (Image cw ch)))"
proof -
  from run_pool_outcomes [OF run] obtain rs where
    t: "run_tasks worker frames w = (rs, w')" and
    ok: "r = Inr () \<longrightarrow> (\<forall>x \<in> set rs. \<not> isl x)"
    by blast
  have "(\<forall>p. fs w p = Some (Image cw ch) \<longrightarrow> fs w' p = Some (Image cw ch))
       \<and> ((\<forall>x \<in> set rs. \<not> isl x) \<longrightarrow>
            (\<forall>f \<in> set frames.
               fs w' (pd @ [''NewFrames'', ''frame'' @ str_int f @ ''.png'']) = Some (Image cw ch)))"
  proof (rule run_tasks_frames [where worker = worker and pd = pd, OF _ _ t nz canvas])
    fix f w e w'
    assume "worker f w = (Inl e, w')"
    then show "w' = w" by (rule bad)
  next
    fix f w c w'
    assume "worker f w = (Inr c, w')" "f \<noteq> 0"
    then show "\<exists>cw ch. fs w (pd @ [''canvas.png'']) = Some (Image cw ch)
                    \<and> w' = w\<lparr>fs := (fs w)(pd @ [''NewFrames'', ''frame'' @ str_int f @ ''.png'']
                                          \<mapsto> Image cw ch)\<rparr>"
      by (rule good)
  qed
  then show ?thesis using ok by blast
qed

lemma generate_canvas_Inr:
  assumes "generate_canvas T core frame w = (Inr p, w')"
  shows "fs w' (process_dir core @ [''canvas.png''])
         = Some (Image (fst (out_dimensions core)) (snd (out_dimensions core)))"
  using assms unfolding generate_canvas_def Magick_blank_png_def Let_def
  by (auto split: sum.splits prod.splits if_splits)

text \<open>
  Claim C3. In a sequence run the workers are \<^verbatim>\<open>dynamic_single_frame\<close> (or, in
  \<^verbatim>\<open>video.asciify\<close>, \<^verbatim>\<open>asciify_single_frame\<close>) for the frames 1..n, all started on
  the same object and the same canvas file. When the pool succeeds, every frame written
  has the dimensions of the canvas, whatever the definition of the frame; the canvas is
  unchanged; no worker changes \<open>out_dimensions\<close>, because \<^verbatim>\<open>figure_out_sizes\<close> with
  \<^verbatim>\<open>fine_tune=False\<close> never does; and the canvas that \<^verbatim>\<open>generate_canvas\<close> makes has
  the output dimensions of the object at that moment.
\<close>

theorem sequence_frames_share_canvas_dimensions:
  assumes worker: "worker = dynamic_single_frame T \<or> worker = asciify_single_frame T"
      and pool: "run_pool T (\<lambda>f. worker f core) [1..n] w = (Inr (), w')"
      and canvas: "fs w (process_dir core @ [''canvas.png'']) = Some (Image cw ch)"
  shows "(\<forall>f. 1 \<le> f \<and> f \<le> n \<longrightarrow>
            fs w' (process_dir core @ [''NewFrames'', ''frame'' @ str_int f @ ''.png''])
              = Some (Image cw ch))
       \<and> fs w' (process_dir core @ [''canvas.png'']) = Some (Image cw ch)
       \<and> (\<forall>f w0 core' w1. worker f core w0 = (Inr core', w1) \<longrightarrow>
            out_dimensions core' = out_dimensions core)
       \<and> (\<forall>self frame even_sizes self'.
            figure_out_sizes T self frame False even_sizes = Inr self' \<longrightarrow>
            out_dimensions self' = out_dimensions self)
       \<and> (\<forall>self frame w0 p w1. generate_canvas T self frame w0 = (Inr p, w1) \<longrightarrow>
            fs w1 (process_dir self @ [''canvas.png''])
              = Some (Image (fst (out_dimensions self)) (snd (out_dimensions self))))"
proof -
  have nz: "0 \<notin> set [1..n]" by simp
  have bad: "\<And>f w e w'. worker f core w = (Inl e, w') \<Longrightarrow> w' = w"
    using worker dynamic_single_frame_Inl asciify_single_frame_Inl by blast
  have good: "\<And>f w c w'. worker f core w = (Inr c, w') \<Longrightarrow> f \<noteq> 0 \<Longrightarrow>
                  \<exists>cw ch. fs w (process_dir core @ [''canvas.png'']) = Some (Image cw ch)
                    \<and> w' = w\<lparr>fs := (fs w)(process_dir core
                                             @ [''NewFrames'', ''frame'' @ str_int f @ ''.png'']
                                          \<mapsto> Image cw ch)\<rparr>"
    using worker dynamic_single_frame_Inr asciify_single_frame_Inr by blast
  have P: "(\<forall>p. fs w p = Some (Image cw ch) \<longrightarrow> fs w' p = Some (Image cw ch))
       \<and> (Inr () = (Inr () :: error + unit) \<longrightarrow>
            (\<forall>f \<in> set [1..n].
               fs w' (process_dir core @ [''NewFrames'', ''frame'' @ str_int f @ ''.png''])
                 = Some (Image cw ch)))"
  proof (rule run_pool_frames [where worker = "\<lambda>f. worker f core" and pd = "process_dir core",
                               OF _ _ pool nz canvas])
    fix f w e w'
    assume "worker f core w = (Inl e, w')"
    then show "w' = w" by (rule bad)
  next
    fix f w c w'
    assume "worker f core w = (Inr c, w')" "f \<noteq> 0"
    then show "\<exists>cw ch. fs w (process_dir core @ [''canvas.png'']) = Some (Image cw ch)
                    \<and> w' = w\<lparr>fs := (fs w)(process_dir core
                                             @ [''NewFrames'', ''frame'' @ str_int f @ ''.png'']
                                          \<mapsto> Image cw ch)\<rparr>"
      by (rule good)
  qed
  have A: "\<forall>f. 1 \<le> f \<and> f \<le> n \<longrightarrow>
            fs w' (process_dir core @ [''NewFrames'', ''frame'' @ str_int f @ ''.png''])
              = Some (Image cw ch)"
    using P by simp
  have B: "fs w' (process_dir core @ [''canvas.png'']) = Some (Image cw ch)"
    using P canvas by blast
  have C: "\<forall>f w0 core' w1. worker f core w0 = (Inr core', w1) \<longrightarrow>
            out_dimensions core' = out_dimensions core"
    using worker dynamic_single_frame_out_dimensions asciify_single_frame_out_dimensions
    by blast
  have D: "\<forall>self frame even_sizes self'.
            figure_out_sizes T self frame False even_sizes = Inr self' \<longrightarrow>
            out_dimensions self' = out_dimensions self"
  proof (intro allI impI)
    fix self frame even_sizes self'
    assume "figure_out_sizes T self frame False even_sizes = Inr self'"
    from figure_out_sizes_coarse [OF this] show "out_dimensions self' = out_dimensions self"
      by auto
  qed
  have E: "\<forall>self frame w0 p w1. generate_canvas T self frame w0 = (Inr p, w1) \<longrightarrow>
            fs w1 (process_dir self @ [''canvas.png''])
              = Some (Image (fst (out_dimensions self)) (snd (out_dimensions self)))"
    using generate_canvas_Inr by blast
  show ?thesis using A B C D E by blast
qed

lemma example_pool_runs:
  "fst (run_pool example_tools (\<lambda>f. dynamic_single_frame example_tools f
           (example_core \<lparr>is_dynamic = True, value_pd = PList [PInt 4, PInt 5],
                            color_type = False, reverse = False\<rparr>
              (static_pd (PFloat (1 / 2)) False False) False (Some 2)))
        [1..2]
        (example_world\<lparr>fs := (fs example_world)([''asciipixels'', ''canvas.png'']
                                  \<mapsto> Image 680 510)\<rparr>)) = Inr ()"
  by code_simp

theorem sequence_frames_share_canvas_dimensions_witness:
  "fst (run_pool example_tools (\<lambda>f. dynamic_single_frame example_tools f
           (example_core \<lparr>is_dynamic = True, value_pd = PList [PInt 4, PInt 5],
                            color_type = False, reverse = False\<rparr>
              (static_pd (PFloat (1 / 2)) False False) False (Some 2)))
        [1..2]
        (example_world\<lparr>fs := (fs example_world)([''asciipixels'', ''canvas.png'']
                                  \<mapsto> Image 680 510)\<rparr>)) = Inr ()
   \<and> fs (example_world\<lparr>fs := (fs example_world)([''asciipixels'', ''canvas.png'']
                                  \<mapsto> Image 680 510)\<rparr>) [''asciipixels'', ''canvas.png'']
       = Some (Image 680 510)
   \<and> fs (snd (run_pool example_tools (\<lambda>f. dynamic_single_frame example_tools f
           (example_core \<lparr>is_dynamic = True, value_pd = PList [PInt 4, PInt 5],
                            color_type = False, reverse = False\<rparr>
              (static_pd (PFloat (1 / 2)) False False) False (Some 2)))
        [1..2]
        (example_world\<lparr>fs := (fs example_world)([''asciipixels'', ''canvas.png'']
                                  \<mapsto> Image 680 510)\<rparr>)))
        [''asciipixels'', ''NewFrames'', ''frame1.png''] = Some (Image 680 510)
   \<and> fs (snd (run_pool example_tools (\<lambda>f. dynamic_single_frame example_tools f
           (example_core \<lparr>is_dynamic = True, value_pd = PList [PInt 4, PInt 5],
                            color_type = False, reverse = False\<rparr>
              (static_pd (PFloat (1 / 2)) False False) False (Some 2)))
        [1..2]
        (example_world\<lparr>fs := (fs example_world)([''asciipixels'', ''canvas.png'']
                                  \<mapsto> Image 680 510)\<rparr>)))
        [''asciipixels'', ''NewFrames'', ''frame2.png''] = Some (Image 680 510)"
proof -
  let ?C = "example_core \<lparr>is_dynamic = True, value_pd = PList [PInt 4, PInt 5],
                            color_type = False, reverse = False\<rparr>
              (static_pd (PFloat (1 / 2)) False False) False (Some 2)"
  let ?W = "example_world\<lparr>fs := (fs example_world)([''asciipixels'', ''canvas.png'']
                                  \<mapsto> Image 680 510)\<rparr>"
  let ?R = "run_pool example_tools (\<lambda>f. dynamic_single_frame example_tools f ?C) [1..2] ?W"
  have ok: "fst ?R = Inr ()" by (rule example_pool_runs)
  have h1: "?R = (Inr (), snd ?R)" using ok by (metis prod.collapse)
  have pd: "process_dir ?C = [''asciipixels'']" by (simp add: example_core_def)
  have h2: "fs ?W (process_dir ?C @ [''canvas.png'']) = Some (Image 680 510)"
    by (simp add: pd)
  have s1: "str_int 1 = ''1''" by code_simp
  have s2: "str_int 2 = ''2''" by code_simp
  have h0: "dynamic_single_frame example_tools = dynamic_single_frame example_tools
            \<or> dynamic_single_frame example_tools = asciify_single_frame example_tools"
    by simp
  note T = sequence_frames_share_canvas_dimensions [OF h0 h1 h2]
  have f1: "fs (snd ?R) (process_dir ?C @ [''NewFrames'', ''frame'' @ str_int 1 @ ''.png''])
              = Some (Image 680 510)"
    using T by simp
  have f2: "fs (snd ?R) (process_dir ?C @ [''NewFrames'', ''frame'' @ str_int 2 @ ''.png''])
              = Some (Image 680 510)"
    using T by simp
  show ?thesis using ok h2 f1 f2 by (simp add: pd s1 s2)
qed

section \<open>Properties of image.dynamic_asciify\<close>

lemma mkdir_exist_ok_Inr:
  assumes "mkdir_exist_ok p w = (Inr u, w1)"
  shows "fs w1 p = Some Directory \<and> (\<forall>q. q \<noteq> p \<longrightarrow> fs w1 q = fs w q)
       \<and> ASCIIPIXELS_PROCESS w1 = ASCIIPIXELS_PROCESS w"
  using assms unfolding mkdir_exist_ok_def
  by (auto split: option.splits fs_entry.splits)

lemma make_process_dirs_Inr:
  assumes "make_process_dirs pd w = (Inr u, w1)"
  shows "fs w1 pd = Some Directory \<and> fs w1 (pd @ [''Frames'']) = Some Directory
       \<and> fs w1 (pd @ [''NewFrames'']) = Some Directory
       \<and> ASCIIPIXELS_PROCESS w1 = ASCIIPIXELS_PROCESS w"
proof -
  from assms obtain u1 wa u2 wb where
    a: "mkdir_exist_ok pd w = (Inr u1, wa)" and
    b: "mkdir_exist_ok (pd @ [''Frames'']) wa = (Inr u2, wb)" and
    c: "mkdir_exist_ok (pd @ [''NewFrames'']) wb = (Inr u, w1)"
    unfolding make_process_dirs_def
    by (auto split: prod.splits sum.splits)
  note A = mkdir_exist_ok_Inr [OF a] and B = mkdir_exist_ok_Inr [OF b]
    and C = mkdir_exist_ok_Inr [OF c]
  have "fs w1 pd = Some Directory" using A B C by simp
  moreover have "fs w1 (pd @ [''Frames'']) = Some Directory" using B C by simp
  moreover have "fs w1 (pd @ [''NewFrames'']) = Some Directory" using C by simp
  ultimately show ?thesis using A B C by simp
qed

lemma CoreAsciifier_init_Inr:
  assumes "CoreAsciifier_init T path0 bg0 txt0 definition0 out_width0 strict0 correction0 chars0
             reverse_chars frame_count0 fps0 w = (Inr core, w1)"
  shows "process_dir core = parent path0 @ [''asciipixels'']
       \<and> fs w1 (process_dir core) = Some Directory
       \<and> fs w1 (process_dir core @ [''Frames'']) = Some Directory
       \<and> fs w1 (process_dir core @ [''NewFrames'']) = Some Directory
       \<and> PossiblyDynamic_init definition0 (frame_count core) False False = Inr (definition_pd core)
       \<and> PossiblyDynamic_init correction0 (frame_count core) False False = Inr (correction core)"
proof -
  from assms obtain fc fp dims b t d c ch u where
    r: "resolvers bg0 txt0 definition0 correction0 chars0 reverse_chars fc = Inr (b, t, d, c, ch)" and
    m: "make_process_dirs (parent path0 @ [''asciipixels'']) w = (Inr u, w1)" and
    pd: "process_dir core = parent path0 @ [''asciipixels'']" and
    fcc: "frame_count core = fc" and
    dd: "definition_pd core = d" and
    cc: "correction core = c"
    unfolding CoreAsciifier_init_def Let_def
    by (auto split: if_splits sum.splits prod.splits out_width.splits)
  have "PossiblyDynamic_init definition0 fc False False = Inr d
      \<and> PossiblyDynamic_init correction0 fc False False = Inr c"
    using r unfolding resolvers_def by (auto split: sum.splits)
  then show ?thesis
    using make_process_dirs_Inr [OF m] pd fcc dd cc by simp
qed

lemma max_def_frame_static_int:
  assumes "PossiblyDynamic_init (Value (PInt d)) fc False False = Inr (definition_pd core)"
  shows "max_def_frame core = Inl AttributeError"
proof -
  have "definition_pd core
          = \<lparr>is_dynamic = False, value_pd = PInt d, color_type = False, reverse = False\<rparr>"
    using assms by (simp add: PossiblyDynamic_init_def)
  then have "value_pd (definition_pd core) = PInt d"
    by (metis PossiblyDynamic.select_convs(2))
  then show ?thesis by (simp add: max_def_frame_def)
qed

lemma with_core_result:
  assumes "body w = (r, w1)" and "fs w1 (process_dir core) = Some Directory"
  shows "with_core core body w
         = (r, w1\<lparr>fs := (\<lambda>p. if prefix (process_dir core) p then None else fs w1 p),
                  ASCIIPIXELS_PROCESS := 0\<rparr>)"
  using assms
  by (simp add: with_core_def CoreAsciifier_exit_def remove_process_dir_def)

text \<open>
  Claim C9 says that \<^verbatim>\<open>image.dynamic_asciify\<close> with a plain integer definition raises
  TypeError while selecting the largest-definition frame. It raises AttributeError: in
  \<^verbatim>\<open>core.definition.value.index(max(core.definition.value))\<close> the attribute \<^verbatim>\<open>index\<close>
  is looked up on the \<^verbatim>\<open>int\<close> before \<^verbatim>\<open>max\<close> is called. The call with the default
  definition 100, evaluated:
\<close>

theorem static_definition_TypeError_counterexample:
  "fst (image_dynamic_asciify example_tools [''foo.png''] (Value (PInt 30)) (Value (PInt 255))
          (Value (PInt 100)) NoWidth False 10 5 True (Value PNone)
          (Value (PStr '' .:-=+*$@#'')) False False example_world) = Inl AttributeError
   \<and> fst (image_dynamic_asciify example_tools [''foo.png''] (Value (PInt 30)) (Value (PInt 255))
          (Value (PInt 100)) NoWidth False 10 5 True (Value PNone)
          (Value (PStr '' .:-=+*$@#'')) False False example_world) \<noteq> Inl TypeError"
  by code_simp

text \<open>
  Claim C9, amended. A call of \<^verbatim>\<open>image.dynamic_asciify\<close> with a plain integer definition
  (such as the default 100) and \<^verbatim>\<open>test_dynamic_params=False\<close> never returns normally.
  When the guard and the constructor pass, selecting the largest-definition frame raises
  AttributeError: the body of the \<^verbatim>\<open>with\<close> block ends there with the world unchanged,
  so nothing has been measured, drawn or rendered, and AttributeError is what the call
  raises.
\<close>

theorem static_definition_raises_AttributeError:
  "isl (fst (image_dynamic_asciify T path0 bg_color txt_color (Value (PInt d)) out_width0 strict0
               frame_count0 fps0 gif correction0 chars0 reverse_chars False w))
   \<and> (\<forall>w0 core w1.
         multiprocessing_guard w = (Inr (), w0) \<and>
         CoreAsciifier_init T path0 bg_color txt_color (Value (PInt d)) out_width0 strict0
           correction0 chars0 reverse_chars (Some frame_count0) (Some fps0) w0 = (Inr core, w1) \<longrightarrow>
         max_def_frame core = Inl AttributeError
       \<and> image_dynamic_body T core frame_count0 gif False w1 = (Inl AttributeError, w1)
       \<and> fst (image_dynamic_asciify T path0 bg_color txt_color (Value (PInt d)) out_width0 strict0
                 frame_count0 fps0 gif correction0 chars0 reverse_chars False w) = Inl AttributeError)"
proof -
  let ?call = "image_dynamic_asciify T path0 bg_color txt_color (Value (PInt d)) out_width0 strict0
                 frame_count0 fps0 gif correction0 chars0 reverse_chars False w"
  have main: "max_def_frame core = Inl AttributeError
       \<and> image_dynamic_body T core frame_count0 gif False w1 = (Inl AttributeError, w1)
       \<and> fst ?call = Inl AttributeError"
    if guard: "multiprocessing_guard w = (Inr (), w0)"
    and init: "CoreAsciifier_init T path0 bg_color txt_color (Value (PInt d)) out_width0 strict0
                 correction0 chars0 reverse_chars (Some frame_count0) (Some fps0) w0
               = (Inr core, w1)" for w0 core w1
  proof -
    note I = CoreAsciifier_init_Inr [OF init]
    have A: "max_def_frame core = Inl AttributeError"
      using I max_def_frame_static_int by blast
    have B: "image_dynamic_body T core frame_count0 gif False w1 = (Inl AttributeError, w1)"
      using A by (simp add: image_dynamic_body_def)
    have dir: "fs w1 (process_dir core) = Some Directory" using I by blast
    have "with_core core (image_dynamic_body T core frame_count0 gif False) w1
          = (Inl AttributeError,
             w1\<lparr>fs := (\<lambda>p. if prefix (process_dir core) p then None else fs w1 p),
                ASCIIPIXELS_PROCESS := 0\<rparr>)"
      by (rule with_core_result
            [where body = "image_dynamic_body T core frame_count0 gif False" and w = w1, OF B dir])
    then have C: "fst ?call = Inl AttributeError"
      using guard init by (simp add: image_dynamic_asciify_def)
    show ?thesis using A B C by blast
  qed
  obtain rg w0 where g: "multiprocessing_guard w = (rg, w0)"
    by (cases "multiprocessing_guard w")
  obtain ri w1 where i: "CoreAsciifier_init T path0 bg_color txt_color (Value (PInt d)) out_width0
                 strict0 correction0 chars0 reverse_chars (Some frame_count0) (Some fps0) w0
               = (ri, w1)"
    by (cases "CoreAsciifier_init T path0 bg_color txt_color (Value (PInt d)) out_width0
                 strict0 correction0 chars0 reverse_chars (Some frame_count0) (Some fps0) w0")
  have never: "isl (fst ?call)"
  proof (cases rg)
    case (Inl e)
    then show ?thesis using g by (simp add: image_dynamic_asciify_def)
  next
    case gok: (Inr u)
    show ?thesis
    proof (cases ri)
      case (Inl e)
      then show ?thesis using g gok i by (simp add: image_dynamic_asciify_def)
    next
      case (Inr core)
      then have "fst ?call = Inl AttributeError" using main [of w0 core w1] g gok i by simp
      then show ?thesis by simp
    qed
  qed
  show ?thesis using never main by blast
qed

lemma example_guard: "fst (multiprocessing_guard example_world) = Inr ()"
  by code_simp

lemma example_static_init:
  "fst (CoreAsciifier_init example_tools [''foo.png''] (Value (PInt 30)) (Value (PInt 255))
          (Value (PInt 100)) NoWidth False (Value PNone) (Value (PStr '' .:-=+*$@#'')) False
          (Some 10) (Some 5) (snd (multiprocessing_guard example_world)))
   = Inr ((example_core (static_pd (PInt 100) False False) (static_pd PNone False False)
             False (Some 10))\<lparr>fps := Some 5\<rparr>)"
  by code_simp

theorem static_definition_raises_AttributeError_witness:
  "fst (multiprocessing_guard example_world) = Inr ()
   \<and> fst (CoreAsciifier_init example_tools [''foo.png''] (Value (PInt 30)) (Value (PInt 255))
          (Value (PInt 100)) NoWidth False (Value PNone) (Value (PStr '' .:-=+*$@#'')) False
          (Some 10) (Some 5) (snd (multiprocessing_guard example_world)))
       = Inr ((example_core (static_pd (PInt 100) False False) (static_pd PNone False False)
                 False (Some 10))\<lparr>fps := Some 5\<rparr>)
   \<and> fst (image_dynamic_asciify example_tools [''foo.png''] (Value (PInt 30)) (Value (PInt 255))
          (Value (PInt 100)) NoWidth False 10 5 True (Value PNone)
          (Value (PStr '' .:-=+*$@#'')) False False example_world) = Inl AttributeError"
proof -
  let ?w0 = "snd (multiprocessing_guard example_world)"
  let ?I = "CoreAsciifier_init example_tools [''foo.png''] (Value (PInt 30)) (Value (PInt 255))
          (Value (PInt 100)) NoWidth False (Value PNone) (Value (PStr '' .:-=+*$@#'')) False
          (Some 10) (Some 5) ?w0"
  let ?C = "(example_core (static_pd (PInt 100) False False) (static_pd PNone False False)
                 False (Some 10))\<lparr>fps := Some 5\<rparr>"
  have h1: "multiprocessing_guard example_world = (Inr (), ?w0)"
    using example_guard by (metis prod.collapse)
  have h2: "?I = (Inr ?C, snd ?I)"
    using example_static_init by (metis prod.collapse)
  note T = static_definition_raises_AttributeError
             [of example_tools "[''foo.png'']" "Value (PInt 30)" "Value (PInt 255)" 100 NoWidth
                 False 10 5 True "Value PNone" "Value (PStr '' .:-=+*$@#'')" False example_world]
  have "fst (image_dynamic_asciify example_tools [''foo.png''] (Value (PInt 30)) (Value (PInt 255))
          (Value (PInt 100)) NoWidth False 10 5 True (Value PNone)
          (Value (PStr '' .:-=+*$@#'')) False False example_world) = Inl AttributeError"
    using T h1 h2 by blast
  then show ?thesis using example_guard example_static_init by blast
qed

text \<open>
  Claim C1 says that the shared geometry of a dynamic-definition run is computed with the
  frame of the largest definition: frame 3 for \<^verbatim>\<open>lambda frame: 50 + frame\<close> and three
  frames. The code evaluated at that input: the stored sequence is [51, 52, 53], line 130
  of image.py yields 2 (the position of 53 counted from 0), and \<^verbatim>\<open>figure_out_sizes(2)\<close>
  resolves the definition of frame 2, which is 52; on the 800 pixel wide image the point
  size is 27, where frame 3 would give 26.
\<close>

theorem largest_definition_frame_off_by_one:
  "fst (CoreAsciifier_init example_tools [''foo.png''] (Value (PInt 30)) (Value (PInt 255))
          (Func fifty_plus_frame) NoWidth False (Value PNone) (Value (PStr '' .:-=+*$@#''))
          False (Some 3) (Some 5) example_world)
     = Inr ((example_core
               \<lparr>is_dynamic = True, value_pd = PList [PInt 51, PInt 52, PInt 53],
                  color_type = False, reverse = False\<rparr>
               (static_pd PNone False False) False (Some 3))\<lparr>fps := Some 5\<rparr>)
   \<and> max_def_frame
         ((example_core
               \<lparr>is_dynamic = True, value_pd = PList [PInt 51, PInt 52, PInt 53],
                  color_type = False, reverse = False\<rparr>
               (static_pd PNone False False) False (Some 3))\<lparr>fps := Some 5\<rparr>) = Inr 2
   \<and> getitem \<lparr>is_dynamic = True, value_pd = PList [PInt 51, PInt 52, PInt 53],
                 color_type = False, reverse = False\<rparr> (Some 2) = Inr (PInt 52)
   \<and> getitem \<lparr>is_dynamic = True, value_pd = PList [PInt 51, PInt 52, PInt 53],
                 color_type = False, reverse = False\<rparr> (Some 3) = Inr (PInt 53)
   \<and> map_sum id text_size
         (figure_out_sizes example_tools
            ((example_core
               \<lparr>is_dynamic = True, value_pd = PList [PInt 51, PInt 52, PInt 53],
                  color_type = False, reverse = False\<rparr>
               (static_pd PNone False False) False (Some 3))\<lparr>fps := Some 5\<rparr>)
            (Some 2) True True) = Inr (Some 27)
   \<and> map_sum id text_size
         (figure_out_sizes example_tools
            ((example_core
               \<lparr>is_dynamic = True, value_pd = PList [PInt 51, PInt 52, PInt 53],
                  color_type = False, reverse = False\<rparr>
               (static_pd PNone False False) False (Some 3))\<lparr>fps := Some 5\<rparr>)
            (Some 3) True True) = Inr (Some 26)"
  by code_simp

section \<open>The workspace is removed\<close>
























end
